theory Spec2Isabelle
  imports Main "HOL-Library.Word" "HOL-Library.Signed_Division" "HOL-Library.Monad_Syntax"
begin

section \<open>Interface types of the ODLA API\<close>

type_synonym byte = "8 word"

text \<open>
  Modelled from the spec: the header \<^verbatim>\<open>ODLA/odla.h\<close> is not among the sources. The
  element types are the four of section 6; \<open>ODLA_OTHER_TYPE\<close> stands for every other
  enumerator, which is what the \<^verbatim>\<open>default:\<close> branch of \<open>getDataType\<close> receives.
\<close>

datatype odla_element_type =
  ODLA_FLOAT32 | ODLA_INT32 | ODLA_INT64 | ODLA_BFLOAT16 | ODLA_OTHER_TYPE

text \<open>
  \<^verbatim>\<open>odla_value_shape\<close>: a signed 32-bit \<open>size\<close> and an array of signed 64-bit
  \<open>dims\<close>. The array is a list; only its first \<open>size\<close> entries are read.
\<close>

record odla_value_shape =
  shape_size :: int
  shape_dims :: "int list"

record odla_value_type =
  element_type :: odla_element_type
  type_shape :: odla_value_shape

datatype odla_status = ODLA_SUCCESS | ODLA_FAILURE

datatype odla_memory_layout =
  ODLA_CHANNELS_FIRST | ODLA_CHANNELS_LAST | ODLA_SIO | ODLA_OIS | ODLA_IOS
  | ODLA_OTHER_LAYOUT

section \<open>The kernel library's descriptors\<close>

datatype data_type = f32 | s32 | bf16 | dt_undef

text \<open>
  The format tags the source names. In the library \<^verbatim>\<open>nchw\<close>, \<^verbatim>\<open>nhwc\<close>, \<^verbatim>\<open>hwio\<close>,
  \<^verbatim>\<open>hwigo\<close>, \<^verbatim>\<open>oihw\<close>, \<^verbatim>\<open>goihw\<close>, \<^verbatim>\<open>iohw\<close> and \<^verbatim>\<open>giohw\<close> are other names of
  letter tags, so they are definitions here and not constructors of their own.
\<close>

datatype format_tag =
  tag_undef | tag_any
  | tag_a | tag_ab | tag_abc | tag_abcd | tag_abcde | tag_abcdef
  | tag_acdb | tag_cdba | tag_decab | tag_bacd | tag_acbde

definition nchw :: format_tag where "nchw = tag_abcd"
definition nhwc :: format_tag where "nhwc = tag_acdb"
definition hwio :: format_tag where "hwio = tag_cdba"
definition hwigo :: format_tag where "hwigo = tag_decab"
definition oihw :: format_tag where "oihw = tag_abcd"
definition goihw :: format_tag where "goihw = tag_abcde"
definition iohw :: format_tag where "iohw = tag_bacd"
definition giohw :: format_tag where "giohw = tag_acbde"

section \<open>Shape and layout resolver\<close>

text \<open>
  \<^verbatim>\<open>getFormatTag(const odla_value_shape&)\<close>: a table of seven tags indexed by the rank,
  with entry 0 for a rank outside 1..6.
\<close>

definition tags :: "format_tag list" where
  "tags = [tag_undef, tag_a, tag_ab, tag_abc, tag_abcd, tag_abcde, tag_abcdef]"

definition getFormatTag :: "odla_value_shape \<Rightarrow> format_tag" where
  "getFormatTag od =
     (if shape_size od \<le> 0 \<or> shape_size od > 6 then tags ! 0
      else tags ! nat (shape_size od))"

text \<open>
  \<^verbatim>\<open>getFormatTag(odla_memory_layout, unsigned group)\<close>. The \<^verbatim>\<open>default:\<close> branch is
  \<^verbatim>\<open>assert(0)\<close> followed by \<^verbatim>\<open>return any\<close>: \<open>None\<close> is the failed assertion of a build
  with assertions, \<open>ndebug\<close> says that assertions are compiled out.
\<close>

definition getFormatTag_layout :: "bool \<Rightarrow> odla_memory_layout \<Rightarrow> nat \<Rightarrow> format_tag option" where
  "getFormatTag_layout ndebug layout grp =
     (case layout of
        ODLA_CHANNELS_FIRST \<Rightarrow> Some nchw
      | ODLA_CHANNELS_LAST \<Rightarrow> Some nhwc
      | ODLA_SIO \<Rightarrow> Some (if grp > 1 then hwigo else hwio)
      | ODLA_OIS \<Rightarrow> Some (if grp > 1 then goihw else oihw)
      | ODLA_IOS \<Rightarrow> Some (if grp > 1 then giohw else iohw)
      | ODLA_OTHER_LAYOUT \<Rightarrow> (if ndebug then Some tag_any else None))"

text \<open>\<^verbatim>\<open>getDims\<close>: the first \<open>size\<close> entries of the array.\<close>

definition getDims :: "odla_value_shape \<Rightarrow> int list" where
  "getDims od = take (nat (shape_size od)) (shape_dims od)"

text \<open>
  \<^verbatim>\<open>GetTotalElements\<close> is \<^verbatim>\<open>std::accumulate(dims, dims + size, 1, std::multiplies<size_t>())\<close>.
  The initial value \<^verbatim>\<open>1\<close> is an \<^verbatim>\<open>int\<close>, so the accumulator is a 32-bit \<^verbatim>\<open>int\<close>: every
  step converts it and the dimension to the 64-bit \<^verbatim>\<open>size_t\<close>, multiplies there and
  stores the product back into the 32-bit accumulator. The result is returned as a signed
  64-bit value.
\<close>

definition GetTotalElements :: "odla_value_shape \<Rightarrow> int" where
  "GetTotalElements od =
     sint (foldl (\<lambda>(acc :: 32 word) d. ucast ((scast acc :: 64 word) * word_of_int d))
             1 (getDims od))"

text \<open>
  \<^verbatim>\<open>getStrides\<close>: a vector of \<open>size\<close> ones, then
  \<^verbatim>\<open>for (int i = size - 2; i >= 0; --i) strides[i] = strides[i + 1] * dims[i + 1]\<close>.
  The loop counter of the model is \<open>i + 1\<close>. The 64-bit products are taken in \<open>int\<close>:
  a tensor that fits in memory does not overflow them.
\<close>

fun getStrides_loop :: "int list \<Rightarrow> nat \<Rightarrow> int list \<Rightarrow> int list" where
  "getStrides_loop ds 0 strides = strides"
| "getStrides_loop ds (Suc i) strides =
     getStrides_loop ds i (strides[i := strides ! Suc i * ds ! Suc i])"

definition getStrides :: "odla_value_shape \<Rightarrow> int list" where
  "getStrides od =
     getStrides_loop (shape_dims od) (nat (shape_size od) - 1)
       (replicate (nat (shape_size od)) 1)"

definition getDataType :: "odla_element_type \<Rightarrow> data_type" where
  "getDataType ty =
     (case ty of
        ODLA_FLOAT32 \<Rightarrow> f32
      | ODLA_INT32 \<Rightarrow> s32
      | ODLA_INT64 \<Rightarrow> s32
      | ODLA_BFLOAT16 \<Rightarrow> bf16
      | ODLA_OTHER_TYPE \<Rightarrow> dt_undef)"

section \<open>The constant-storage object\<close>

text \<open>
  \<^verbatim>\<open>Constant::Constant\<close> of \<^verbatim>\<open>lib/ir/constant.cc\<close>. The classes \<^verbatim>\<open>Type\<close> and
  \<^verbatim>\<open>DataLayout\<close> are not among the sources, so what the constructor reads from them is
  taken as arguments: \<open>valid\<close> is \<^verbatim>\<open>ty.IsValid()\<close>, \<open>bytes\<close> is \<^verbatim>\<open>data_layout.Bytes(ty)\<close>
  and \<open>byte_per_element\<close> is \<^verbatim>\<open>data_layout.Bytes(ty.GetDataType())\<close>. \<open>src\<close> is the
  memory at \<^verbatim>\<open>data_ptr\<close>.
\<close>

datatype ctor_error = CheckFailed | DivisionByZero | OutOfBounds

text \<open>\<^verbatim>\<open>std::copy_n(src, n, dst + off)\<close>: \<open>dst[off + k] = src[k]\<close> for \<open>k < n\<close>.\<close>

definition copy_n :: "byte list \<Rightarrow> nat \<Rightarrow> byte list \<Rightarrow> nat \<Rightarrow> byte list" where
  "copy_n src n dst off = fold (\<lambda>k d. d[off + k := src ! k]) [0..<n] dst"

lemma length_copy_n [simp]: "length (copy_n src n dst off) = length dst"
proof -
  have "length (fold (\<lambda>k d. d[off + k := src ! k]) ks d) = length d" for ks d
    by (induction ks arbitrary: d) simp_all
  then show ?thesis by (simp add: copy_n_def)
qed

text \<open>
  The splat loop
  \<^verbatim>\<open>for (size_t i = 0, e = bytes / byte_per_element; i != e; i += byte_per_element)
    std::copy_n(src, byte_per_element, data_.begin() + i);\<close>
  A write that would pass the end of \<open>data_\<close> is the error \<open>OutOfBounds\<close>. The bound
  \<open>e\<close> is a quotient by \<open>byte_per_element\<close>, so the loop is only entered with a
  non-zero step; the model of the loop gives the step 0 the same error as the division.
\<close>

function splat_loop ::
  "byte list \<Rightarrow> nat \<Rightarrow> nat \<Rightarrow> nat \<Rightarrow> byte list \<Rightarrow> ctor_error + byte list" where
  "splat_loop src byte_per_element e i data =
     (if i = e then Inr data
      else if byte_per_element = 0 then Inl DivisionByZero
      else if length data < i + byte_per_element then Inl OutOfBounds
      else splat_loop src byte_per_element e (i + byte_per_element)
             (copy_n src byte_per_element data i))"
  by pat_completeness auto
termination
  by (relation "measure (\<lambda>(src, b, e, i, data). Suc (length data) - i)") auto

definition Constant ::
  "bool \<Rightarrow> nat \<Rightarrow> nat \<Rightarrow> byte list \<Rightarrow> bool \<Rightarrow> ctor_error + byte list" where
  "Constant valid bytes byte_per_element src do_splat =
     (if \<not> valid then Inl CheckFailed
      else let data = replicate bytes (0 :: byte) in
        if \<not> do_splat then Inr (copy_n src bytes data 0)
        else if byte_per_element = 0 then Inl DivisionByZero
        else splat_loop src byte_per_element (bytes div byte_per_element) 0 data)"

section \<open>Memory descriptors of the kernel library\<close>

text \<open>
  Modelled from the spec: the kernel library (\<^verbatim>\<open>dnnl.hpp\<close>) is not among the sources;
  section 4.1 names what the resolver maps shapes to, "native format descriptors, strides".
  A memory descriptor is modelled by what the source reads and writes of it: the dims, the
  data type, the kind of format and, for a blocked (plain strided) format, one stride per
  dimension. The strides are a list as long as the dims: the entries of the library's
  fixed array past the rank are not read by the library and are not modelled. An opaque
  format stands for a layout the library chose; it carries the byte size the library
  reports for it. The library rejects ill-formed descriptors with an exception, which the
  source never catches; that abnormal termination is not modelled.
\<close>

datatype format_kind = fk_undef | fk_any | fk_blocked | fk_opaque nat

record memory_desc =
  md_dims :: "int list"
  md_data_type :: data_type
  md_kind :: format_kind
  md_strides :: "int list"

text \<open>The physical order of the logical dimensions of a tag, outermost first.\<close>

definition tag_order :: "format_tag \<Rightarrow> nat list" where
  "tag_order t =
     (case t of
        tag_undef \<Rightarrow> [] | tag_any \<Rightarrow> []
      | tag_a \<Rightarrow> [0] | tag_ab \<Rightarrow> [0, 1] | tag_abc \<Rightarrow> [0, 1, 2] | tag_abcd \<Rightarrow> [0, 1, 2, 3]
      | tag_abcde \<Rightarrow> [0, 1, 2, 3, 4] | tag_abcdef \<Rightarrow> [0, 1, 2, 3, 4, 5]
      | tag_acdb \<Rightarrow> [0, 2, 3, 1] | tag_cdba \<Rightarrow> [2, 3, 1, 0] | tag_decab \<Rightarrow> [3, 4, 2, 0, 1]
      | tag_bacd \<Rightarrow> [1, 0, 2, 3] | tag_acbde \<Rightarrow> [0, 2, 1, 3, 4])"

text \<open>
  The strides of a dense tensor stored in the given physical order: the innermost
  dimension has stride 1, every other one the stride of the next inner dimension times
  its size.
\<close>

definition order_strides :: "int list \<Rightarrow> nat list \<Rightarrow> int list" where
  "order_strides ds order =
     fst (foldr (\<lambda>d (strs, acc). (strs[d := acc], acc * ds ! d)) order
            (replicate (length ds) 0, 1))"

text \<open>\<^verbatim>\<open>dnnl::memory::desc(dims, data_type, format_tag)\<close>.\<close>

definition desc_by_tag :: "int list \<Rightarrow> data_type \<Rightarrow> format_tag \<Rightarrow> memory_desc" where
  "desc_by_tag ds dt t =
     \<lparr>md_dims = ds, md_data_type = dt,
      md_kind = (if t = tag_undef then fk_undef else if t = tag_any then fk_any else fk_blocked),
      md_strides = (if t = tag_undef \<or> t = tag_any then replicate (length ds) 0
                    else order_strides ds (tag_order t))\<rparr>"

text \<open>\<^verbatim>\<open>dnnl::memory::desc(dims, data_type, strides)\<close>.\<close>

definition desc_by_strides :: "int list \<Rightarrow> data_type \<Rightarrow> int list \<Rightarrow> memory_desc" where
  "desc_by_strides ds dt strs =
     \<lparr>md_dims = ds, md_data_type = dt, md_kind = fk_blocked, md_strides = strs\<rparr>"

definition data_type_size :: "data_type \<Rightarrow> nat" where
  "data_type_size dt = (case dt of f32 \<Rightarrow> 4 | s32 \<Rightarrow> 4 | bf16 \<Rightarrow> 2 | dt_undef \<Rightarrow> 0)"

text \<open>
  \<^verbatim>\<open>desc::get_size()\<close>: the bytes a buffer of this descriptor needs. A descriptor with
  no dims or with a zero dim holds nothing; a blocked one reaches one element past its
  largest offset.
\<close>

definition get_size :: "memory_desc \<Rightarrow> nat" where
  "get_size d =
     (case md_kind d of
        fk_blocked \<Rightarrow>
          (if md_dims d = [] \<or> 0 \<in> set (md_dims d) then 0
           else nat (1 + sum_list (map2 (\<lambda>n st. (n - 1) * st) (md_dims d) (md_strides d)))
                  * data_type_size (md_data_type d))
      | fk_opaque n \<Rightarrow> n
      | fk_undef \<Rightarrow> 0
      | fk_any \<Rightarrow> 0)"

definition getMemoryDesc_dt :: "odla_value_shape \<Rightarrow> data_type \<Rightarrow> memory_desc" where
  "getMemoryDesc_dt ds ty = desc_by_tag (getDims ds) ty (getFormatTag ds)"

definition getMemoryDesc :: "odla_value_shape \<Rightarrow> odla_element_type \<Rightarrow> memory_desc" where
  "getMemoryDesc ds ty = desc_by_tag (getDims ds) (getDataType ty) (getFormatTag ds)"

definition getMemoryDesc_type :: "odla_value_type \<Rightarrow> memory_desc" where
  "getMemoryDesc_type ty = getMemoryDesc (type_shape ty) (element_type ty)"

section \<open>Primitives and their execution\<close>

text \<open>
  Modelled from the spec: the argument keys of a plan entry, which section 3 calls its
  "named argument bindings (source/destination/weights buffers)". The entry is a
  \<^verbatim>\<open>std::unordered_map<int, dnnl::memory>\<close>; the macros are the library's, and several
  names share a number.
\<close>

definition DNNL_ARG_SRC_0 :: int where "DNNL_ARG_SRC_0 = 1"
definition DNNL_ARG_SRC :: int where "DNNL_ARG_SRC = DNNL_ARG_SRC_0"
definition DNNL_ARG_FROM :: int where "DNNL_ARG_FROM = DNNL_ARG_SRC_0"
definition DNNL_ARG_SRC_1 :: int where "DNNL_ARG_SRC_1 = 2"
definition DNNL_ARG_DST :: int where "DNNL_ARG_DST = 17"
definition DNNL_ARG_TO :: int where "DNNL_ARG_TO = DNNL_ARG_DST"
definition DNNL_ARG_WEIGHTS :: int where "DNNL_ARG_WEIGHTS = 33"

lemmas arg_defs =
  DNNL_ARG_SRC_0_def DNNL_ARG_SRC_def DNNL_ARG_FROM_def DNNL_ARG_SRC_1_def
  DNNL_ARG_DST_def DNNL_ARG_TO_def DNNL_ARG_WEIGHTS_def

datatype algorithm =
  binary_add | binary_mul | eltwise_logistic | eltwise_relu | eltwise_clip
  | convolution_direct | deconvolution_direct

text \<open>A 32-bit float parameter is kept as its bit pattern; nothing computes with it.\<close>

type_synonym odla_float32 = "32 word"

record convolution_desc =
  cd_algorithm :: algorithm
  cd_src :: memory_desc
  cd_weights :: memory_desc
  cd_dst :: memory_desc
  cd_strides :: "int list"
  cd_padding_l :: "int list"
  cd_padding_r :: "int list"

text \<open>
  A primitive descriptor of the convolution family: the formats the library prefers for
  the source, the weights and the destination.
\<close>

record primitive_desc =
  src_desc :: memory_desc
  weights_desc :: memory_desc
  dst_desc :: memory_desc

datatype primitive =
  reorder memory_desc memory_desc
  | binary algorithm memory_desc memory_desc memory_desc
  | eltwise_forward algorithm memory_desc odla_float32 odla_float32
  | convolution_forward convolution_desc primitive_desc
  | deconvolution_forward convolution_desc primitive_desc
  | matmul memory_desc memory_desc memory_desc

text \<open>
  A \<^verbatim>\<open>dnnl::memory\<close> is a handle to a shared memory object: a descriptor and a data
  handle (the address of a buffer). Copies of the handle denote the same object, so the
  objects live in a store and a \<^verbatim>\<open>dnnl::memory\<close> is an index into it.
\<close>

record memory_obj =
  get_desc :: memory_desc
  get_data_handle :: nat

text \<open>
  What the library contributes and neither the repository nor the spec defines is a
  parameter of the model: the formats a convolution or deconvolution primitive descriptor
  prefers, and the effect of executing a primitive on the buffers (given the memory
  objects bound to its argument keys).
\<close>

record dnnl_lib =
  conv_primitive_desc :: "convolution_desc \<Rightarrow> primitive_desc"
  deconv_primitive_desc :: "convolution_desc \<Rightarrow> primitive_desc"
  execute_kernel :: "primitive \<Rightarrow> (int \<rightharpoonup> memory_obj) \<Rightarrow> (nat \<Rightarrow> byte list) \<Rightarrow> (nat \<Rightarrow> byte list)"

text \<open>
  Modelled from the spec: the library's reorder primitive is the glossary's repacking
  step, "a buffer copy that converts a tensor from one native memory layout/stride
  arrangement to another". Between two blocked descriptors of the same dims and data type
  every logical element is read at its offset in the source layout and written at its
  offset in the destination layout. \<open>all_indices\<close> lists the logical indices,
  \<open>offset\<close> is the element offset of an index under given strides, \<open>copy_element\<close>
  copies the bytes of one element.
\<close>

fun all_indices :: "int list \<Rightarrow> nat list list" where
  "all_indices [] = [[]]"
| "all_indices (d # ds) = concat (map (\<lambda>i. map ((#) i) (all_indices ds)) [0..<nat d])"

definition offset :: "nat list \<Rightarrow> int list \<Rightarrow> int" where
  "offset idx strs = sum_list (map2 (\<lambda>i st. int i * st) idx strs)"

definition copy_element :: "nat \<Rightarrow> byte list \<Rightarrow> nat \<Rightarrow> byte list \<Rightarrow> nat \<Rightarrow> byte list" where
  "copy_element sz src soff dst doff =
     fold (\<lambda>k d. d[doff * sz + k := src ! (soff * sz + k)]) [0..<sz] dst"

definition reorder_bytes ::
  "nat \<Rightarrow> int list \<Rightarrow> int list \<Rightarrow> int list \<Rightarrow> byte list \<Rightarrow> byte list \<Rightarrow> byte list" where
  "reorder_bytes sz ds sstr dstr src dst =
     fold (\<lambda>idx d. copy_element sz src (nat (offset idx sstr)) d (nat (offset idx dstr)))
       (all_indices ds) dst"

definition plain_reorder :: "memory_desc \<Rightarrow> memory_desc \<Rightarrow> bool" where
  "plain_reorder s d \<longleftrightarrow>
     md_kind s = fk_blocked \<and> md_kind d = fk_blocked \<and> md_dims s = md_dims d
     \<and> md_dims s \<noteq> [] \<and> md_data_type s = md_data_type d"

definition execute_primitive ::
  "dnnl_lib \<Rightarrow> primitive \<Rightarrow> (int \<rightharpoonup> nat) \<Rightarrow> (nat \<Rightarrow> memory_obj) \<Rightarrow> (nat \<Rightarrow> byte list)
     \<Rightarrow> (nat \<Rightarrow> byte list)" where
  "execute_primitive lib p a ms h =
     (let bound = map_option ms \<circ> a in
      case p of
        reorder s d \<Rightarrow>
          (case (bound DNNL_ARG_FROM, bound DNNL_ARG_TO) of
             (Some f, Some t) \<Rightarrow>
               if plain_reorder s d
               then h(get_data_handle t :=
                        reorder_bytes (data_type_size (md_data_type s)) (md_dims s)
                          (md_strides s) (md_strides d)
                          (h (get_data_handle f)) (h (get_data_handle t)))
               else execute_kernel lib p bound h
           | _ \<Rightarrow> execute_kernel lib p bound h)
      | _ \<Rightarrow> execute_kernel lib p bound h)"

section \<open>Values, computations, contexts and the program state\<close>

record odla_value_s =
  mem :: nat
  is_const :: bool
  shape :: odla_value_shape
  name :: string

record target_opts =
  enable_bf16 :: bool

text \<open>
  \<^verbatim>\<open>_odla_computation\<close>. The engine is the one CPU engine of every computation and is
  left out. \<open>vals\<close> holds the addresses of the values the computation owns, in creation
  order; \<open>inputs\<close> and \<open>outputs\<close> map a name to a value.
\<close>

record odla_computation_s =
  primitives :: "primitive list"
  args :: "(int \<rightharpoonup> nat) list"
  vals :: "nat list"
  inputs :: "string \<rightharpoonup> nat"
  outputs :: "string \<rightharpoonup> nat"
  opts :: target_opts

record odla_context_s =
  comp :: nat
  stream :: bool

text \<open>
  The program state. Objects reached through pointers live in stores indexed by their
  address (a number; 0 is the null pointer of a computation): buffers in \<open>heap\<close>, memory
  objects in \<open>mems\<close>, values in \<open>value_store\<close>, computations in \<open>comps\<close>, contexts in
  \<open>contexts\<close>. \<open>next_ptr\<close>, \<open>next_mem\<close>, \<open>next_value\<close> and \<open>next_context\<close> are the
  addresses the next allocation returns. \<open>g_comps\<close>, \<open>g_comp\<close> and \<open>g_interpret_mode\<close>
  are the globals of the source, \<open>interp_context\<close> is the static local \<^verbatim>\<open>context\<close> of
  \<open>InterpretIfNeeded\<close>.
\<close>

record state =
  heap :: "nat \<Rightarrow> byte list"
  next_ptr :: nat
  mems :: "nat \<Rightarrow> memory_obj"
  next_mem :: nat
  value_store :: "nat \<Rightarrow> odla_value_s"
  next_value :: nat
  comps :: "nat \<Rightarrow> odla_computation_s"
  g_comps :: "nat list"
  g_comp :: nat
  g_interpret_mode :: bool
  contexts :: "nat \<Rightarrow> odla_context_s"
  next_context :: nat
  interp_context :: "nat option"

text \<open>
  The compile-time configuration: \<open>ndebug\<close> removes every \<^verbatim>\<open>assert\<close>;
  \<open>build_as_interpreter\<close> is \<^verbatim>\<open>ODLA_DNNL_BUILD_AS_INTERPRETER\<close> defined to a non-zero value.
\<close>

record build_config =
  ndebug :: bool
  build_as_interpreter :: bool

text \<open>
  How a call ends: it returns a result and the new state, it aborts the process at a
  failed assertion (with the state reached by then), or it runs into behaviour the
  language leaves undefined where the source makes that visible (a division by zero, a
  string built from a null pointer, a null value dereferenced after a failed lookup).
\<close>

datatype 'a outcome = Returned (result: 'a) (final: state) | Aborted (final: state) | Undefined

definition the_comp :: "state \<Rightarrow> odla_computation_s" where
  "the_comp s = comps s (g_comp s)"

definition update_comp :: "(odla_computation_s \<Rightarrow> odla_computation_s) \<Rightarrow> state \<Rightarrow> state" where
  "update_comp f s = s\<lparr>comps := (comps s)(g_comp s := f (comps s (g_comp s)))\<rparr>"

text \<open>The memory object of a value, its descriptor and its buffer.\<close>

definition value_mem :: "state \<Rightarrow> nat \<Rightarrow> memory_obj" where
  "value_mem s v = mems s (mem (value_store s v))"

definition value_data :: "state \<Rightarrow> nat \<Rightarrow> byte list" where
  "value_data s v = heap s (get_data_handle (value_mem s v))"

text \<open>
  \<^verbatim>\<open>dnnl::memory(md, eng)\<close> allocates a buffer of \<open>get_size md\<close> bytes (its content is
  indeterminate in the source and zero here; nothing below depends on it);
  \<^verbatim>\<open>dnnl::memory(md, eng, ptr)\<close> wraps the caller's buffer.
\<close>

definition new_memory :: "memory_desc \<Rightarrow> state \<Rightarrow> nat \<times> state" where
  "new_memory d s =
     (next_mem s,
      s\<lparr>heap := (heap s)(next_ptr s := replicate (get_size d) 0),
        next_ptr := Suc (next_ptr s),
        mems := (mems s)(next_mem s := \<lparr>get_desc = d, get_data_handle = next_ptr s\<rparr>),
        next_mem := Suc (next_mem s)\<rparr>)"

definition new_memory_at :: "memory_desc \<Rightarrow> nat \<Rightarrow> state \<Rightarrow> nat \<times> state" where
  "new_memory_at d ptr s =
     (next_mem s,
      s\<lparr>mems := (mems s)(next_mem s := \<lparr>get_desc = d, get_data_handle = ptr\<rparr>),
        next_mem := Suc (next_mem s)\<rparr>)"

definition set_data_handle :: "nat \<Rightarrow> nat \<Rightarrow> state \<Rightarrow> state" where
  "set_data_handle m ptr s = s\<lparr>mems := (mems s)(m := (mems s m)\<lparr>get_data_handle := ptr\<rparr>)\<rparr>"

text \<open>\<^verbatim>\<open>memcpy(dst, src, n)\<close> on two buffers.\<close>

definition memcpy :: "nat \<Rightarrow> nat \<Rightarrow> nat \<Rightarrow> state \<Rightarrow> state" where
  "memcpy dst src n s = s\<lparr>heap := (heap s)(dst := copy_n (heap s src) n (heap s dst) 0)\<rparr>"

text \<open>
  \<^verbatim>\<open>CreateValue\<close>: a new \<^verbatim>\<open>_odla_value\<close> (not constant), appended to the value registry
  of the active computation. A null id gives the empty name.
\<close>

definition CreateValue :: "nat \<Rightarrow> odla_value_shape \<Rightarrow> string option \<Rightarrow> state \<Rightarrow> nat \<times> state" where
  "CreateValue m sh vid s =
     (let nm = (case vid of None \<Rightarrow> [] | Some n \<Rightarrow> n);
          v = next_value s
      in (v, update_comp (\<lambda>c. c\<lparr>vals := vals c @ [v]\<rparr>)
               (s\<lparr>value_store := (value_store s)(v := \<lparr>mem = m, is_const = False, shape = sh, name = nm\<rparr>),
                  next_value := Suc v\<rparr>)))"

section \<open>Computation and context lifecycle, execution\<close>

definition empty_computation :: odla_computation_s where
  "empty_computation =
     \<lparr>primitives = [], args = [], vals = [], inputs = Map.empty, outputs = Map.empty,
      opts = \<lparr>enable_bf16 = False\<rparr>\<rparr>"

text \<open>
  A call declared to return \<^verbatim>\<open>odla_status\<close> returns \<open>Some\<close> status where it executes a
  \<^verbatim>\<open>return\<close> statement, and \<open>None\<close> where control reaches the end of its body without
  one. \<open>odla_CreateComputation\<close>: \<open>out\<close> says whether the out-parameter is non-null; the
  second component is what is written through it. Computations are never freed, so the
  address of a new one is one more than the number created so far.
\<close>

definition odla_CreateComputation ::
  "bool \<Rightarrow> state \<Rightarrow> (odla_status option \<times> nat option) outcome" where
  "odla_CreateComputation out s =
     (let c = Suc (length (g_comps s));
          s' = s\<lparr>comps := (comps s)(c := empty_computation), g_comps := g_comps s @ [c],
                 g_comp := c\<rparr>
      in Returned (Some ODLA_SUCCESS, if out then Some c else None) s')"

definition odla_SetActiveComputation :: "nat \<Rightarrow> state \<Rightarrow> odla_status option outcome" where
  "odla_SetActiveComputation computation s = Returned (Some ODLA_SUCCESS) (s\<lparr>g_comp := computation\<rparr>)"

definition odla_DestroyComputation :: "nat \<Rightarrow> state \<Rightarrow> odla_status option outcome" where
  "odla_DestroyComputation computation s = Returned (Some ODLA_SUCCESS) s"

definition odla_CreateContext :: "state \<Rightarrow> (odla_status option \<times> nat) outcome" where
  "odla_CreateContext s =
     (let c = next_context s
      in Returned (Some ODLA_SUCCESS, c)
           (s\<lparr>contexts := (contexts s)(c := \<lparr>comp = g_comp s, stream = False\<rparr>),
              next_context := Suc c\<rparr>))"

definition odla_DestroyContext :: "nat \<Rightarrow> state \<Rightarrow> odla_status option outcome" where
  "odla_DestroyContext ctx s = Returned (Some ODLA_SUCCESS) s"

text \<open>
  The replay loop \<^verbatim>\<open>for (i = 0; i < primitives.size(); ++i) primitives[i].execute(stream, args[i])\<close>.
  Binding changes the data handle of a memory object, and the plan entries name memory
  objects, so the handles are read from the store when the entry executes.
\<close>

definition run_plan ::
  "dnnl_lib \<Rightarrow> odla_computation_s \<Rightarrow> (nat \<Rightarrow> memory_obj) \<Rightarrow> (nat \<Rightarrow> byte list) \<Rightarrow> (nat \<Rightarrow> byte list)" where
  "run_plan lib c ms h =
     foldl (\<lambda>h i. execute_primitive lib (primitives c ! i) (args c ! i) ms h) h
       [0..<length (primitives c)]"

definition make_stream :: "nat \<Rightarrow> state \<Rightarrow> state" where
  "make_stream ctx s = s\<lparr>contexts := (contexts s)(ctx := (contexts s ctx)\<lparr>stream := True\<rparr>)\<rparr>"

text \<open>\<open>odla_ExecuteComputation\<close>; the mode and the device are not read and are left out.\<close>

definition odla_ExecuteComputation ::
  "dnnl_lib \<Rightarrow> nat \<Rightarrow> nat \<Rightarrow> state \<Rightarrow> odla_status option outcome" where
  "odla_ExecuteComputation lib cmp ctx s =
     (let s1 = (if stream (contexts s ctx) then s else make_stream ctx s)
      in Returned (Some ODLA_SUCCESS)
           (s1\<lparr>heap := run_plan lib (comps s1 cmp) (mems s1) (heap s1)\<rparr>))"

definition InterpretIfNeeded :: "build_config \<Rightarrow> dnnl_lib \<Rightarrow> state \<Rightarrow> state" where
  "InterpretIfNeeded cfg lib s =
     (if \<not> build_as_interpreter cfg then s
      else if \<not> g_interpret_mode s then s
      else
        let (ctx, s1) =
              (case interp_context s of
                 Some c \<Rightarrow> (c, s)
               | None \<Rightarrow>
                   (case odla_CreateContext s of
                      Returned (st, c) t \<Rightarrow> (c, t\<lparr>interp_context := Some c\<rparr>)
                    | _ \<Rightarrow> (0, s)));
            s2 = (if stream (contexts s1 ctx) then s1 else make_stream ctx s1);
            s3 = s2\<lparr>heap := run_plan lib (the_comp s2) (mems s2) (heap s2)\<rparr>
        in update_comp (\<lambda>c. c\<lparr>primitives := [], args := []\<rparr>) s3)"

section \<open>Creating, querying and binding values\<close>

text \<open>
  A value id is a nullable C string. \<open>odla_CreateArgument\<close> builds a \<^verbatim>\<open>std::string\<close>
  from it for the key of \<open>inputs\<close>, which is undefined for a null id.
\<close>

definition odla_CreateArgument :: "odla_value_type \<Rightarrow> string option \<Rightarrow> state \<Rightarrow> nat outcome" where
  "odla_CreateArgument ty vid s =
     (let md = getMemoryDesc (type_shape ty) ODLA_FLOAT32;
          (m, s1) = new_memory md s;
          (v, s2) = CreateValue m (type_shape ty) vid s1
      in case vid of
           None \<Rightarrow> Undefined
         | Some nm \<Rightarrow> Returned v (update_comp (\<lambda>c. c\<lparr>inputs := (inputs c)(nm \<mapsto> v)\<rparr>) s2))"

definition odla_CreateValue ::
  "build_config \<Rightarrow> odla_value_type \<Rightarrow> string option \<Rightarrow> state \<Rightarrow> nat outcome" where
  "odla_CreateValue cfg ty vid s =
     (if \<not> ndebug cfg \<and> \<not> g_interpret_mode s then Aborted s
      else odla_CreateArgument ty vid s)"

text \<open>\<open>odla_GetValueType\<close>: the second component is what is written to \<^verbatim>\<open>*value_type\<close>.\<close>

definition odla_GetValueType :: "nat \<Rightarrow> state \<Rightarrow> (odla_status option \<times> odla_value_type) outcome" where
  "odla_GetValueType v s =
     Returned (Some ODLA_SUCCESS,
               \<lparr>element_type = ODLA_FLOAT32, type_shape = shape (value_store s v)\<rparr>) s"

definition odla_BindToArgument :: "nat \<Rightarrow> nat \<Rightarrow> nat \<Rightarrow> state \<Rightarrow> odla_status option outcome" where
  "odla_BindToArgument v data_ptr ctx s =
     Returned (Some ODLA_SUCCESS) (set_data_handle (mem (value_store s v)) data_ptr s)"

definition odla_SetValueData ::
  "build_config \<Rightarrow> nat \<Rightarrow> nat \<Rightarrow> state \<Rightarrow> odla_status option outcome" where
  "odla_SetValueData cfg v ptr s =
     (if \<not> ndebug cfg \<and> \<not> g_interpret_mode s then Aborted s
      else Returned (Some ODLA_SUCCESS) (set_data_handle (mem (value_store s v)) ptr s))"

text \<open>
  \<open>odla_GetValueData\<close>: the body is the assertion and the \<^verbatim>\<open>memcpy\<close>; it has no
  \<^verbatim>\<open>return\<close> statement.
\<close>

definition odla_GetValueData ::
  "build_config \<Rightarrow> nat \<Rightarrow> nat \<Rightarrow> state \<Rightarrow> odla_status option outcome" where
  "odla_GetValueData cfg v data_ptr s =
     (if \<not> ndebug cfg \<and> \<not> (g_interpret_mode s = True) then Aborted s
      else Returned None
             (memcpy data_ptr (get_data_handle (value_mem s v)) (get_size (get_desc (value_mem s v))) s))"

text \<open>
  \<open>odla_BindToArgumentById\<close>: \<^verbatim>\<open>inputs[name]\<close> on a name that is absent yields a null
  value, which \<open>odla_BindToArgument\<close> then dereferences.
\<close>

definition odla_BindToArgumentById ::
  "string option \<Rightarrow> nat \<Rightarrow> nat \<Rightarrow> state \<Rightarrow> odla_status option outcome" where
  "odla_BindToArgumentById value_id data_ptr ctx s =
     (case value_id of
        None \<Rightarrow> Undefined
      | Some nm \<Rightarrow>
          (case inputs (comps s (comp (contexts s ctx))) nm of
             None \<Rightarrow> Undefined
           | Some v \<Rightarrow> odla_BindToArgument v data_ptr ctx s))"

definition odla_CreateConstant :: "odla_value_type \<Rightarrow> nat \<Rightarrow> string option \<Rightarrow> state \<Rightarrow> nat outcome" where
  "odla_CreateConstant ty ptr vid s =
     (let md = getMemoryDesc_type ty;
          (m, s1) = new_memory_at md ptr s;
          (v, s2) = CreateValue m (type_shape ty) vid s1
      in Returned v
           (s2\<lparr>value_store := (value_store s2)(v := (value_store s2 v)\<lparr>is_const := True\<rparr>)\<rparr>))"

text \<open>\<open>odla_SetValueAsOutput\<close>: the body is the one assignment; it has no \<^verbatim>\<open>return\<close> statement.\<close>

definition odla_SetValueAsOutput :: "nat \<Rightarrow> state \<Rightarrow> odla_status option outcome" where
  "odla_SetValueAsOutput val s =
     Returned None
       (update_comp (\<lambda>c. c\<lparr>outputs := (outputs c)(name (value_store s val) \<mapsto> val)\<rparr>) s)"

definition odla_BindToOutput :: "nat \<Rightarrow> nat \<Rightarrow> nat \<Rightarrow> state \<Rightarrow> odla_status option outcome" where
  "odla_BindToOutput v data_ptr ctx s =
     (if is_const (value_store s v)
      then Returned (Some ODLA_SUCCESS)
             (memcpy data_ptr (get_data_handle (value_mem s v))
                (get_size (get_desc (value_mem s v))) s)
      else Returned (Some ODLA_SUCCESS) (set_data_handle (mem (value_store s v)) data_ptr s))"

definition odla_BindToOutputById ::
  "string option \<Rightarrow> nat \<Rightarrow> nat \<Rightarrow> state \<Rightarrow> odla_status option outcome" where
  "odla_BindToOutputById value_id data_ptr ctx s =
     (case value_id of
        None \<Rightarrow> Undefined
      | Some nm \<Rightarrow>
          (case outputs (comps s (comp (contexts s ctx))) nm of
             None \<Rightarrow> Undefined
           | Some v \<Rightarrow> odla_BindToOutput v data_ptr ctx s))"

section \<open>Op lowering functions\<close>

definition push_primitive :: "primitive \<Rightarrow> state \<Rightarrow> state" where
  "push_primitive p = update_comp (\<lambda>c. c\<lparr>primitives := primitives c @ [p]\<rparr>)"

definition push_args :: "(int \<rightharpoonup> nat) \<Rightarrow> state \<Rightarrow> state" where
  "push_args a = update_comp (\<lambda>c. c\<lparr>args := args c @ [a]\<rparr>)"

definition set_value_mem :: "nat \<Rightarrow> nat \<Rightarrow> state \<Rightarrow> state" where
  "set_value_mem v m s = s\<lparr>value_store := (value_store s)(v := (value_store s v)\<lparr>mem := m\<rparr>)\<rparr>"

subsection \<open>Elementwise binary\<close>

text \<open>
  \<^verbatim>\<open>assert(ln >= rn && ln % rn == 0)\<close>: compiled out under \<open>ndebug\<close>; otherwise it
  passes, fails, or divides by zero (when \<open>rn = 0 \<le> ln\<close>). \<^verbatim>\<open>%\<close> truncates towards zero.
\<close>

datatype assertion = Passed | Failed | DividesByZero

definition divisibility_assert :: "bool \<Rightarrow> int \<Rightarrow> int \<Rightarrow> assertion" where
  "divisibility_assert nd ln rn =
     (if nd then Passed
      else if ln \<ge> rn then (if rn = 0 then DividesByZero
                            else if ln smod rn = 0 then Passed else Failed)
      else Failed)"

text \<open>
  The strides of the right operand's view: its own row-major strides, with one zero
  inserted at the front for each of the \<open>dims_lhs.size - dims_rhs.size\<close> rounds of the
  loop; they overwrite the leading strides of a copy of the left operand's descriptor.
\<close>

definition broadcast_strides :: "odla_value_shape \<Rightarrow> odla_value_shape \<Rightarrow> int list" where
  "broadcast_strides dims_lhs dims_rhs =
     replicate (nat (shape_size dims_lhs - shape_size dims_rhs)) 0 @ getStrides dims_rhs"

definition set_strides :: "int list \<Rightarrow> memory_desc \<Rightarrow> memory_desc" where
  "set_strides strs d =
     d\<lparr>md_strides := fold (\<lambda>i st. st[i := strs ! i]) [0..<length strs] (md_strides d)\<rparr>"

definition binary_eltwise ::
  "build_config \<Rightarrow> dnnl_lib \<Rightarrow> algorithm \<Rightarrow> nat \<Rightarrow> nat \<Rightarrow> string option \<Rightarrow> state \<Rightarrow> nat outcome" where
  "binary_eltwise cfg lib algo lhs rhs vid s =
     (let dims_lhs = shape (value_store s lhs);
          dims_rhs = shape (value_store s rhs);
          lhs_md = desc_by_tag (getDims dims_lhs) (md_data_type (get_desc (value_mem s lhs)))
                     (getFormatTag dims_lhs);
          ret_md = lhs_md;
          (ret_mem, s1) = new_memory ret_md s;
          ln = GetTotalElements dims_lhs;
          rn = GetTotalElements dims_rhs;
          differ = (shape_size dims_lhs \<noteq> shape_size dims_rhs);
          checked = (if differ then divisibility_assert (ndebug cfg) ln rn else Passed)
      in case checked of
           DividesByZero \<Rightarrow> Undefined
         | Failed \<Rightarrow> Aborted s1
         | Passed \<Rightarrow>
             let rhs_md = (if differ then set_strides (broadcast_strides dims_lhs dims_rhs) lhs_md
                           else if ln = rn then lhs_md
                           else get_desc (value_mem s rhs));
                 s2 = push_primitive (binary algo lhs_md rhs_md ret_md) s1;
                 (v, s3) = CreateValue ret_mem (shape (value_store s2 lhs)) vid s2;
                 s4 = push_args [DNNL_ARG_SRC_0 \<mapsto> mem (value_store s3 lhs),
                                 DNNL_ARG_SRC_1 \<mapsto> mem (value_store s3 rhs),
                                 DNNL_ARG_DST \<mapsto> ret_mem] s3
             in Returned v (InterpretIfNeeded cfg lib s4))"

definition odla_Add ::
  "build_config \<Rightarrow> dnnl_lib \<Rightarrow> nat \<Rightarrow> nat \<Rightarrow> string option \<Rightarrow> state \<Rightarrow> nat outcome" where
  "odla_Add cfg lib lhs rhs vid s = binary_eltwise cfg lib binary_add lhs rhs vid s"

definition odla_Mul ::
  "build_config \<Rightarrow> dnnl_lib \<Rightarrow> nat \<Rightarrow> nat \<Rightarrow> string option \<Rightarrow> state \<Rightarrow> nat outcome" where
  "odla_Mul cfg lib lhs rhs vid s = binary_eltwise cfg lib binary_mul lhs rhs vid s"

subsection \<open>Elementwise unary\<close>

definition odla_Sigmoid ::
  "build_config \<Rightarrow> dnnl_lib \<Rightarrow> nat \<Rightarrow> string option \<Rightarrow> state \<Rightarrow> nat outcome" where
  "odla_Sigmoid cfg lib input vid s =
     (let ret_md = get_desc (value_mem s input);
          (ret_mem, s1) = new_memory ret_md s;
          s2 = push_primitive (eltwise_forward eltwise_logistic (get_desc (value_mem s input)) 0 0) s1;
          (v, s3) = CreateValue ret_mem (shape (value_store s2 input)) vid s2;
          s4 = push_args [DNNL_ARG_SRC \<mapsto> mem (value_store s3 input), DNNL_ARG_DST \<mapsto> ret_mem] s3
      in Returned v (InterpretIfNeeded cfg lib s4))"

definition odla_LeakyRelu ::
  "build_config \<Rightarrow> dnnl_lib \<Rightarrow> nat \<Rightarrow> odla_float32 \<Rightarrow> string option \<Rightarrow> state \<Rightarrow> nat outcome" where
  "odla_LeakyRelu cfg lib input alpha vid s =
     (let ret_md = get_desc (value_mem s input);
          (ret_mem, s1) = new_memory ret_md s;
          negative_slope = alpha;
          s2 = push_primitive
                 (eltwise_forward eltwise_relu (get_desc (value_mem s input)) negative_slope 0) s1;
          (v, s3) = CreateValue ret_mem (shape (value_store s2 input)) vid s2;
          s4 = push_args [DNNL_ARG_SRC \<mapsto> mem (value_store s3 input), DNNL_ARG_DST \<mapsto> ret_mem] s3
      in Returned v (InterpretIfNeeded cfg lib s4))"

definition odla_Relu ::
  "build_config \<Rightarrow> dnnl_lib \<Rightarrow> nat \<Rightarrow> string option \<Rightarrow> state \<Rightarrow> nat outcome" where
  "odla_Relu cfg lib input value_id s = odla_LeakyRelu cfg lib input 0 value_id s"

definition odla_Clamp ::
  "build_config \<Rightarrow> dnnl_lib \<Rightarrow> nat \<Rightarrow> odla_float32 \<Rightarrow> odla_float32 \<Rightarrow> string option \<Rightarrow> state
     \<Rightarrow> nat outcome" where
  "odla_Clamp cfg lib input lo hi vid s =
     (let ret_md = get_desc (value_mem s input);
          (ret_mem, s1) = new_memory ret_md s;
          s2 = push_primitive (eltwise_forward eltwise_clip (get_desc (value_mem s input)) lo hi) s1;
          (v, s3) = CreateValue ret_mem (shape (value_store s2 input)) vid s2;
          s4 = push_args [DNNL_ARG_SRC \<mapsto> mem (value_store s3 input), DNNL_ARG_DST \<mapsto> ret_mem] s3
      in Returned v (InterpretIfNeeded cfg lib s4))"

subsection \<open>Transpose and reshape\<close>

text \<open>
  \<open>odla_Transpose\<close>. The loop \<^verbatim>\<open>new_strides[i] = strides[permutations.dims[i]]\<close> runs
  over \<open>i < permutations.size\<close>. The source memory of the reorder is a local object
  with a null handle that only supplies the source descriptor. The body ends with
  \<^verbatim>\<open>return CreateValue(dst_mem, output_dims, id)\<close>.
\<close>

definition permute_strides :: "odla_value_shape \<Rightarrow> int list \<Rightarrow> int list" where
  "permute_strides permutations strides =
     fold (\<lambda>i new_strides. new_strides[i := strides ! nat (shape_dims permutations ! i)])
       [0..<nat (shape_size permutations)] strides"

definition odla_Transpose ::
  "nat \<Rightarrow> odla_value_shape \<Rightarrow> odla_value_shape \<Rightarrow> string option \<Rightarrow> state \<Rightarrow> nat outcome" where
  "odla_Transpose input permutations output_dims vid s =
     (let input_dims = shape (value_store s input);
          strides = getStrides input_dims;
          new_strides = permute_strides permutations strides;
          ty = md_data_type (get_desc (value_mem s input));
          src_md = desc_by_strides (getDims output_dims) ty new_strides;
          dst_md = desc_by_strides (getDims output_dims) ty (getStrides output_dims);
          (dst_mem, s1) = new_memory dst_md s;
          s2 = push_primitive (reorder src_md dst_md) s1;
          s3 = push_args [DNNL_ARG_FROM \<mapsto> mem (value_store s2 input), DNNL_ARG_TO \<mapsto> dst_mem] s2;
          (v, s4) = CreateValue dst_mem output_dims vid s3
      in Returned v s4)"

definition odla_Reshape ::
  "nat \<Rightarrow> odla_value_shape \<Rightarrow> string option \<Rightarrow> state \<Rightarrow> nat outcome" where
  "odla_Reshape input output_dims vid s =
     (let (v, s1) = CreateValue (mem (value_store s input)) output_dims vid s
      in Returned v s1)"

subsection \<open>Convolution and deconvolution\<close>

text \<open>
  The dims helpers each start with \<^verbatim>\<open>assert(src_dims.size == 4)\<close>; \<open>None\<close> is the
  failed assertion. \<open>getGOIHWDims\<close> also asserts its layout argument and divides the
  first dim by the group count (a truncating division of a signed 64-bit value).
\<close>

definition getNCHWDims :: "bool \<Rightarrow> odla_value_shape \<Rightarrow> odla_value_shape option" where
  "getNCHWDims nd src_dims =
     (if \<not> nd \<and> shape_size src_dims \<noteq> 4 then None
      else Some \<lparr>shape_size = shape_size src_dims,
                 shape_dims = [shape_dims src_dims ! 0, shape_dims src_dims ! 3,
                               shape_dims src_dims ! 1, shape_dims src_dims ! 2]\<rparr>)"

definition getOIHWDims :: "bool \<Rightarrow> odla_value_shape \<Rightarrow> odla_value_shape option" where
  "getOIHWDims nd src_dims =
     (if \<not> nd \<and> shape_size src_dims \<noteq> 4 then None
      else Some \<lparr>shape_size = shape_size src_dims,
                 shape_dims = [shape_dims src_dims ! 3, shape_dims src_dims ! 2,
                               shape_dims src_dims ! 0, shape_dims src_dims ! 1]\<rparr>)"

definition getGOIHWDims ::
  "bool \<Rightarrow> odla_value_shape \<Rightarrow> nat \<Rightarrow> odla_memory_layout \<Rightarrow> odla_value_shape option" where
  "getGOIHWDims nd src_dims groups layout =
     (if \<not> nd \<and> shape_size src_dims \<noteq> 4 then None
      else if \<not> nd \<and> layout \<noteq> ODLA_OIS then None
      else Some \<lparr>shape_size = shape_size src_dims + 1,
                 shape_dims = [int groups, shape_dims src_dims ! 0 sdiv int groups,
                               shape_dims src_dims ! 1, shape_dims src_dims ! 2,
                               shape_dims src_dims ! 3]\<rparr>)"

definition swap_dims01 :: "odla_value_shape \<Rightarrow> odla_value_shape" where
  "swap_dims01 d =
     d\<lparr>shape_dims := (shape_dims d)[0 := shape_dims d ! 1, 1 := shape_dims d ! 0]\<rparr>"

text \<open>
  What a convolution call has computed when it reaches the primitive descriptor: the
  canonical dims and the source descriptors. Nothing of the program state is written
  before that point, so the steps up to and including
  \<^verbatim>\<open>assert(dilations[0] == 1 && dilations[1] == 1)\<close> are an option-valued computation,
  \<open>None\<close> being the first failed assertion. The four parameter arrays are read at
  indices 0 and 1 and are pairs here.
\<close>

record conv_locals =
  cl_output_dims :: odla_value_shape
  cl_dt :: data_type
  cl_input_tag :: format_tag
  cl_input_md_src :: memory_desc
  cl_kernel_md_src :: memory_desc
  cl_desc :: convolution_desc

definition odla_Conv_locals ::
  "build_config \<Rightarrow> state \<Rightarrow> nat \<Rightarrow> odla_memory_layout \<Rightarrow> nat \<Rightarrow> nat \<Rightarrow> odla_memory_layout
     \<Rightarrow> nat \<times> nat \<Rightarrow> nat \<times> nat \<Rightarrow> nat \<times> nat \<Rightarrow> nat \<times> nat \<Rightarrow> odla_value_shape
     \<Rightarrow> conv_locals option" where
  "odla_Conv_locals cfg s input input_layout grp kern kernel_layout strides dilations
       paddings_front paddings_back output_dims0 =
     (let nd = ndebug cfg;
          dt = md_data_type (get_desc (value_mem s input));
          stride_dims = [int (fst strides), int (snd strides)];
          paddings_before = [int (fst paddings_front), int (snd paddings_front)];
          paddings_after = [int (fst paddings_back), int (snd paddings_back)];
          dt_dst = (if enable_bf16 (opts (the_comp s)) then getDataType ODLA_BFLOAT16 else dt)
      in do {
        (input_dims, output_dims) \<leftarrow>
          (if input_layout = ODLA_CHANNELS_LAST
           then do {
             i \<leftarrow> getNCHWDims nd (shape (value_store s input));
             out \<leftarrow> getNCHWDims nd output_dims0;
             Some (i, out) }
           else Some (shape (value_store s input), output_dims0));
        kernel_dims1 \<leftarrow>
          (if kernel_layout = ODLA_SIO then getOIHWDims nd (shape (value_store s kern))
           else Some (shape (value_store s kern)));
        kernel_dims \<leftarrow>
          (if grp > 1
           then getGOIHWDims nd
                  (if kernel_layout = ODLA_SIO
                      \<and> shape_dims kernel_dims1 ! 0 * int grp = shape_dims kernel_dims1 ! 1
                   then swap_dims01 kernel_dims1 else kernel_dims1)
                  grp ODLA_OIS
           else Some kernel_dims1);
        ret_tag \<leftarrow>
          (if enable_bf16 (opts (the_comp s)) then Some tag_any
           else getFormatTag_layout nd input_layout 1);
        input_tag \<leftarrow> getFormatTag_layout nd input_layout 1;
        kernel_tag \<leftarrow> getFormatTag_layout nd kernel_layout grp;
        (if \<not> nd \<and> \<not> (fst dilations = 1 \<and> snd dilations = 1) then None
         else Some
           \<lparr>cl_output_dims = output_dims, cl_dt = dt, cl_input_tag = input_tag,
            cl_input_md_src = desc_by_tag (getDims input_dims) dt input_tag,
            cl_kernel_md_src = desc_by_tag (getDims kernel_dims) dt kernel_tag,
            cl_desc =
              \<lparr>cd_algorithm = convolution_direct,
               cd_src = desc_by_tag (getDims input_dims) dt_dst tag_any,
               cd_weights = desc_by_tag (getDims kernel_dims) dt_dst tag_any,
               cd_dst = desc_by_tag (getDims output_dims) dt_dst tag_any,
               cd_strides = stride_dims, cd_padding_l = paddings_before,
               cd_padding_r = paddings_after\<rparr>\<rparr>)
      })"

text \<open>
  The part both calls share from the primitive descriptor \<open>pd\<close> on: the weights are
  repacked at once when the library prefers another format (and the kernel value is
  repointed to the repacked memory); a repacking of the input is queued before the
  primitive, with the input value repointed while the primitive's entry is built and
  restored after; a repacking of the result is queued after it and the result value
  repointed to the repacked memory.
\<close>

definition lower_conv ::
  "build_config \<Rightarrow> dnnl_lib \<Rightarrow> primitive \<Rightarrow> primitive_desc \<Rightarrow> conv_locals \<Rightarrow> nat \<Rightarrow> nat
     \<Rightarrow> odla_value_shape \<Rightarrow> string option \<Rightarrow> state \<Rightarrow> nat \<times> state" where
  "lower_conv cfg lib prim pd cl input kern orig_output_dims vid s =
     (let (ret_mem, s1) = new_memory (dst_desc pd) s;
          s2 = (if weights_desc pd \<noteq> cl_kernel_md_src cl
                then let (reordered_w, t) = new_memory (weights_desc pd) s1;
                         h = execute_primitive lib (reorder (cl_kernel_md_src cl) (weights_desc pd))
                               [DNNL_ARG_FROM \<mapsto> mem (value_store t kern),
                                DNNL_ARG_TO \<mapsto> reordered_w] (mems t) (heap t)
                     in set_value_mem kern reordered_w (t\<lparr>heap := h\<rparr>)
                else s1);
          needs_reorder_input = (src_desc pd \<noteq> cl_input_md_src cl);
          orig_mem = mem (value_store s2 input);
          s3 = (if needs_reorder_input
                then let (reordered_mem, t) = new_memory (src_desc pd) s2;
                         t1 = push_primitive (reorder (cl_input_md_src cl) (src_desc pd)) t;
                         t2 = push_args [DNNL_ARG_FROM \<mapsto> mem (value_store t1 input),
                                         DNNL_ARG_TO \<mapsto> reordered_mem] t1
                     in set_value_mem input reordered_mem t2
                else s2);
          s4 = push_primitive prim s3;
          (v, s5) = CreateValue ret_mem orig_output_dims vid s4;
          s6 = push_args [DNNL_ARG_SRC \<mapsto> mem (value_store s5 input),
                          DNNL_ARG_WEIGHTS \<mapsto> mem (value_store s5 kern),
                          DNNL_ARG_DST \<mapsto> ret_mem] s5;
          s7 = (if needs_reorder_input then set_value_mem input orig_mem s6 else s6);
          ret_md_exp = desc_by_tag (getDims (cl_output_dims cl)) (cl_dt cl) (cl_input_tag cl);
          s8 = (if dst_desc pd \<noteq> ret_md_exp
                then let (reordered_mem, t) = new_memory ret_md_exp s7;
                         t1 = push_primitive (reorder (dst_desc pd) ret_md_exp) t;
                         t2 = push_args [DNNL_ARG_FROM \<mapsto> ret_mem, DNNL_ARG_TO \<mapsto> reordered_mem] t1
                     in set_value_mem v reordered_mem t2
                else s7)
      in (v, InterpretIfNeeded cfg lib s8))"

definition odla_Conv ::
  "build_config \<Rightarrow> dnnl_lib \<Rightarrow> nat \<Rightarrow> odla_memory_layout \<Rightarrow> nat \<Rightarrow> nat \<Rightarrow> odla_memory_layout
     \<Rightarrow> nat \<times> nat \<Rightarrow> nat \<times> nat \<Rightarrow> nat \<times> nat \<Rightarrow> nat \<times> nat \<Rightarrow> nat option \<Rightarrow> odla_value_shape
     \<Rightarrow> string option \<Rightarrow> state \<Rightarrow> nat outcome" where
  "odla_Conv cfg lib input input_layout grp kern kernel_layout strides dilations
       paddings_front paddings_back bias output_dims vid s =
     (case odla_Conv_locals cfg s input input_layout grp kern kernel_layout strides dilations
             paddings_front paddings_back output_dims of
        None \<Rightarrow> Aborted s
      | Some cl \<Rightarrow>
          let pd = conv_primitive_desc lib (cl_desc cl);
              (v, s1) = lower_conv cfg lib (convolution_forward (cl_desc cl) pd) pd cl
                          input kern output_dims vid s
          in case bias of
               None \<Rightarrow> Returned v s1
             | Some b \<Rightarrow> odla_Add cfg lib v b vid s1)"

text \<open>
  \<open>odla_DeConv\<close> differs before the primitive descriptor: an \<open>ODLA_IOS\<close> kernel has its
  first two dims swapped, and a grouped kernel is regrouped as it stands.
\<close>

definition odla_DeConv_locals ::
  "build_config \<Rightarrow> state \<Rightarrow> nat \<Rightarrow> odla_memory_layout \<Rightarrow> nat \<Rightarrow> nat \<Rightarrow> odla_memory_layout
     \<Rightarrow> nat \<times> nat \<Rightarrow> nat \<times> nat \<Rightarrow> nat \<times> nat \<Rightarrow> nat \<times> nat \<Rightarrow> odla_value_shape
     \<Rightarrow> conv_locals option" where
  "odla_DeConv_locals cfg s input input_layout grp kern kernel_layout strides dilations
       paddings_front paddings_back output_dims0 =
     (let nd = ndebug cfg;
          stride_dims = [int (fst strides), int (snd strides)];
          paddings_before = [int (fst paddings_front), int (snd paddings_front)];
          paddings_after = [int (fst paddings_back), int (snd paddings_back)];
          dt = md_data_type (get_desc (value_mem s input));
          dt_dst = (if enable_bf16 (opts (the_comp s)) then getDataType ODLA_BFLOAT16 else dt)
      in do {
        (input_dims, output_dims) \<leftarrow>
          (if input_layout = ODLA_CHANNELS_LAST
           then do {
             i \<leftarrow> getNCHWDims nd (shape (value_store s input));
             out \<leftarrow> getNCHWDims nd output_dims0;
             Some (i, out) }
           else Some (shape (value_store s input), output_dims0));
        kernel_dims1 \<leftarrow>
          (if kernel_layout = ODLA_SIO then getOIHWDims nd (shape (value_store s kern))
           else if kernel_layout = ODLA_IOS then Some (swap_dims01 (shape (value_store s kern)))
           else Some (shape (value_store s kern)));
        kernel_dims \<leftarrow>
          (if grp > 1 then getGOIHWDims nd kernel_dims1 grp ODLA_OIS else Some kernel_dims1);
        ret_tag \<leftarrow>
          (if enable_bf16 (opts (the_comp s)) then Some tag_any
           else getFormatTag_layout nd input_layout 1);
        input_tag \<leftarrow> getFormatTag_layout nd input_layout 1;
        kernel_tag \<leftarrow> getFormatTag_layout nd kernel_layout grp;
        (if \<not> nd \<and> \<not> (fst dilations = 1 \<and> snd dilations = 1) then None
         else Some
           \<lparr>cl_output_dims = output_dims, cl_dt = dt, cl_input_tag = input_tag,
            cl_input_md_src = desc_by_tag (getDims input_dims) dt input_tag,
            cl_kernel_md_src = desc_by_tag (getDims kernel_dims) dt kernel_tag,
            cl_desc =
              \<lparr>cd_algorithm = deconvolution_direct,
               cd_src = desc_by_tag (getDims input_dims) dt_dst tag_any,
               cd_weights = desc_by_tag (getDims kernel_dims) dt_dst tag_any,
               cd_dst = desc_by_tag (getDims output_dims) dt_dst tag_any,
               cd_strides = stride_dims, cd_padding_l = paddings_before,
               cd_padding_r = paddings_after\<rparr>\<rparr>)
      })"

definition odla_DeConv ::
  "build_config \<Rightarrow> dnnl_lib \<Rightarrow> nat \<Rightarrow> odla_memory_layout \<Rightarrow> nat \<Rightarrow> nat \<Rightarrow> odla_memory_layout
     \<Rightarrow> nat \<times> nat \<Rightarrow> nat \<times> nat \<Rightarrow> nat \<times> nat \<Rightarrow> nat \<times> nat \<Rightarrow> nat option \<Rightarrow> odla_value_shape
     \<Rightarrow> string option \<Rightarrow> state \<Rightarrow> nat outcome" where
  "odla_DeConv cfg lib input input_layout grp kern kernel_layout strides dilations
       paddings_front paddings_back bias output_dims vid s =
     (case odla_DeConv_locals cfg s input input_layout grp kern kernel_layout strides dilations
             paddings_front paddings_back output_dims of
        None \<Rightarrow> Aborted s
      | Some cl \<Rightarrow>
          let pd = deconv_primitive_desc lib (cl_desc cl);
              (v, s1) = lower_conv cfg lib (deconvolution_forward (cl_desc cl) pd) pd cl
                          input kern output_dims vid s
          in case bias of
               None \<Rightarrow> Returned v s1
             | Some b \<Rightarrow> odla_Add cfg lib v b vid s1)"

subsection \<open>General matrix multiply\<close>

text \<open>
  \<open>odla_Gemm\<close>: the assertion on the two ranks, the descriptors from the transpose
  flags, one plan entry, and the result value; a bias goes through \<open>odla_Add\<close>. The
  scaling factors are not read and are left out.
\<close>

definition odla_Gemm ::
  "build_config \<Rightarrow> dnnl_lib \<Rightarrow> nat \<Rightarrow> bool \<Rightarrow> nat \<Rightarrow> bool \<Rightarrow> nat option \<Rightarrow> odla_value_shape
     \<Rightarrow> string option \<Rightarrow> state \<Rightarrow> nat outcome" where
  "odla_Gemm cfg lib lhs transpose_lhs rhs transpose_rhs bias output_dims vid s =
     (let lhs_dims = shape (value_store s lhs);
          rhs_dims = shape (value_store s rhs);
          dt = md_data_type (get_desc (value_mem s lhs))
      in if \<not> ndebug cfg \<and> \<not> (shape_size lhs_dims = 2 \<and> shape_size rhs_dims = 2) then Aborted s
         else
           let M = shape_dims output_dims ! 0;
               N = shape_dims output_dims ! 1;
               K = (if \<not> transpose_rhs then shape_dims rhs_dims ! 0 else shape_dims rhs_dims ! 1);
               lda = (if transpose_lhs then M else K);
               ldb = (if transpose_rhs then K else N);
               ldc = N;
               lhs_md = desc_by_strides [M, K] dt (if transpose_lhs then [1, lda] else [lda, 1]);
               rhs_md = desc_by_strides [K, N] dt (if transpose_rhs then [1, ldb] else [ldb, 1]);
               ret_md = desc_by_strides [M, N] dt [ldc, 1];
               (ret_mem, s1) = new_memory ret_md s;
               s2 = push_primitive (matmul lhs_md rhs_md ret_md) s1;
               s3 = push_args [DNNL_ARG_SRC \<mapsto> mem (value_store s2 lhs),
                               DNNL_ARG_WEIGHTS \<mapsto> mem (value_store s2 rhs),
                               DNNL_ARG_DST \<mapsto> ret_mem] s2;
               (v, s4) = CreateValue ret_mem output_dims
                           (case bias of None \<Rightarrow> vid | Some b \<Rightarrow> None) s3
           in case bias of
                None \<Rightarrow> Returned v s4
              | Some b \<Rightarrow> odla_Add cfg lib v b vid s4)"

section \<open>A concrete program, for closed examples\<close>

text \<open>
  The state at program start of a compiled (non-interpreter) build, a caller-side buffer
  allocation, and a stand-in for the kernel library whose convolution descriptors pick
  the packed format of each operand and whose kernels leave the buffers alone.
\<close>

definition init_state :: state where
  "init_state =
     \<lparr>heap = (\<lambda>p. []), next_ptr = 1,
      mems = (\<lambda>m. \<lparr>get_desc = desc_by_tag [] dt_undef tag_undef, get_data_handle = 0\<rparr>),
      next_mem = 1,
      value_store = (\<lambda>v. \<lparr>mem = 0, is_const = False,
                            shape = \<lparr>shape_size = 0, shape_dims = []\<rparr>, name = []\<rparr>),
      next_value = 1,
      comps = (\<lambda>c. empty_computation), g_comps = [], g_comp = 0,
      g_interpret_mode = False,
      contexts = (\<lambda>c. \<lparr>comp = 0, stream = False\<rparr>), next_context = 1,
      interp_context = None\<rparr>"

definition caller_buffer :: "byte list \<Rightarrow> state \<Rightarrow> state" where
  "caller_buffer bs s = s\<lparr>heap := (heap s)(next_ptr s := bs), next_ptr := Suc (next_ptr s)\<rparr>"

definition packed_desc :: "memory_desc \<Rightarrow> memory_desc" where
  "packed_desc d = desc_by_tag (md_dims d) (md_data_type d) (tags ! length (md_dims d))"

definition plain_lib :: dnnl_lib where
  "plain_lib =
     \<lparr>conv_primitive_desc =
        (\<lambda>d. \<lparr>src_desc = packed_desc (cd_src d), weights_desc = packed_desc (cd_weights d),
              dst_desc = packed_desc (cd_dst d)\<rparr>),
      deconv_primitive_desc =
        (\<lambda>d. \<lparr>src_desc = packed_desc (cd_src d), weights_desc = packed_desc (cd_weights d),
              dst_desc = packed_desc (cd_dst d)\<rparr>),
      execute_kernel = (\<lambda>p a h. h)\<rparr>"

definition float_type :: "int list \<Rightarrow> odla_value_type" where
  "float_type ds =
     \<lparr>element_type = ODLA_FLOAT32, type_shape = \<lparr>shape_size = int (length ds), shape_dims = ds\<rparr>\<rparr>"

text \<open>
  One computation with six arguments, of shapes [7], [2,3], [4], [3], [1,1,4,4] and
  [1,1,3,3] (values 1 to 6, buffers 1 to 6), and a constant of shape [1] over four bytes
  of the caller (value 7, buffer 7).
\<close>

definition example_state :: state where
  "example_state =
     (let s0 = final (odla_CreateComputation False init_state);
          s1 = final (odla_CreateArgument (float_type [7]) (Some ''w'') s0);
          s2 = final (odla_CreateArgument (float_type [2, 3]) (Some ''x'') s1);
          s3 = final (odla_CreateArgument (float_type [4]) (Some ''y'') s2);
          s4 = final (odla_CreateArgument (float_type [3]) (Some ''z'') s3);
          s5 = final (odla_CreateArgument (float_type [1, 1, 4, 4]) (Some ''image'') s4);
          s6 = final (odla_CreateArgument (float_type [1, 1, 3, 3]) (Some ''filter'') s5);
          s7 = caller_buffer [1, 2, 3, 4] s6
      in final (odla_CreateConstant (float_type [1]) (next_ptr s6) (Some ''c'') s7))"

definition debug_build :: build_config where
  "debug_build = \<lparr>ndebug = False, build_as_interpreter = False\<rparr>"

definition release_build :: build_config where
  "release_build = \<lparr>ndebug = True, build_as_interpreter = False\<rparr>"

section \<open>Notions used to state and prove the properties\<close>

text \<open>
  These are not functions of the source. \<open>row_major ds\<close> lists the strides of a dense
  row-major tensor of dims \<open>ds\<close>; \<open>in_range idx ds\<close> says that \<open>idx\<close> is a logical
  index of such a tensor; \<open>gather f xs\<close> is the list \<open>xs\<close> read through the index map
  \<open>f\<close> (entry \<open>i\<close> is \<open>xs ! f i\<close>). \<open>plan_drained s\<close> says that the plan of the
  active computation is empty: no primitives and no argument bindings.
\<close>

fun row_major :: "int list \<Rightarrow> int list" where
  "row_major [] = []"
| "row_major (d # ds) = prod_list ds # row_major ds"

definition in_range :: "nat list \<Rightarrow> int list \<Rightarrow> bool" where
  "in_range idx ds = list_all2 (\<lambda>i d. int i < d) idx ds"

definition gather :: "(nat \<Rightarrow> nat) \<Rightarrow> 'a list \<Rightarrow> 'a list" where
  "gather f xs = map (\<lambda>i. xs ! f i) [0..<length xs]"

definition plan_drained :: "state \<Rightarrow> bool" where
  "plan_drained s \<longleftrightarrow> primitives (the_comp s) = [] \<and> args (the_comp s) = []"

section \<open>Properties of the resolver\<close>

text \<open>
  C8: the shape-to-format resolver returns, for a shape of rank 1 to 6, the packed
  row-major tag of that rank (\<open>a\<close>, \<open>ab\<close>, ..., \<open>abcdef\<close>), and the undefined tag for a
  rank of 0 (or below) and for a rank above 6.
\<close>

theorem getFormatTag_by_rank:
  "getFormatTag od =
     (if shape_size od = 1 then tag_a
      else if shape_size od = 2 then tag_ab
      else if shape_size od = 3 then tag_abc
      else if shape_size od = 4 then tag_abcd
      else if shape_size od = 5 then tag_abcde
      else if shape_size od = 6 then tag_abcdef
      else tag_undef)"
proof -
  have "shape_size od \<le> 0 \<or> shape_size od = 1 \<or> shape_size od = 2 \<or> shape_size od = 3
      \<or> shape_size od = 4 \<or> shape_size od = 5 \<or> shape_size od = 6 \<or> 6 < shape_size od"
    by arith
  then show ?thesis
    by (elim disjE) (simp_all add: getFormatTag_def tags_def)
qed

text \<open>
  The tag the resolver returns for a rank from 1 to 6 denotes the packed row-major
  layout: the descriptor built from it has the row-major strides of its dims.
\<close>

lemma packed_tag_is_row_major:
  assumes "1 \<le> n" "n \<le> 6" "length ds = n"
  shows "desc_by_tag ds dt (tags ! n) = desc_by_strides ds dt (row_major ds)"
proof -
  from assms(1,2) consider "n = 1" | "n = 2" | "n = 3" | "n = 4" | "n = 5" | "n = 6"
    by linarith
  then show ?thesis
    using assms(3)
    by cases
      (auto simp: numeral_eq_Suc length_Suc_conv tags_def desc_by_tag_def desc_by_strides_def
         order_strides_def tag_order_def)
qed

section \<open>Facts about the stores and the example program\<close>

lemma the_comp_update_comp [simp]: "the_comp (update_comp f s) = f (the_comp s)"
  by (simp add: the_comp_def update_comp_def)

lemma update_comp_fields [simp]:
  "heap (update_comp f s) = heap s" "mems (update_comp f s) = mems s"
  "value_store (update_comp f s) = value_store s" "next_ptr (update_comp f s) = next_ptr s"
  "next_mem (update_comp f s) = next_mem s" "next_value (update_comp f s) = next_value s"
  "g_comp (update_comp f s) = g_comp s" "g_interpret_mode (update_comp f s) = g_interpret_mode s"
  "contexts (update_comp f s) = contexts s" "interp_context (update_comp f s) = interp_context s"
  by (simp_all add: update_comp_def)

lemma the_comp_steps [simp]:
  "the_comp (push_primitive p s) = (the_comp s)\<lparr>primitives := primitives (the_comp s) @ [p]\<rparr>"
  "the_comp (push_args a s) = (the_comp s)\<lparr>args := args (the_comp s) @ [a]\<rparr>"
  "the_comp (snd (CreateValue m sh vid s)) = (the_comp s)\<lparr>vals := vals (the_comp s) @ [next_value s]\<rparr>"
  "the_comp (snd (new_memory d s)) = the_comp s"
  "fst (CreateValue m sh vid s) = next_value s"
  by (simp_all add: push_primitive_def push_args_def CreateValue_def new_memory_def Let_def
        the_comp_def update_comp_def)

lemma the_comp_frame [simp]:
  "the_comp (set_value_mem v m s) = the_comp s"
  "the_comp (s\<lparr>heap := h\<rparr>) = the_comp s"
  by (simp_all add: set_value_mem_def the_comp_def)

lemma value_store_steps [simp]:
  "value_store (push_primitive p s) = value_store s"
  "value_store (push_args a s) = value_store s"
  "value_store (snd (new_memory d s)) = value_store s"
  "next_value (push_primitive p s) = next_value s"
  "next_value (push_args a s) = next_value s"
  "next_value (snd (new_memory d s)) = next_value s"
  by (simp_all add: push_primitive_def push_args_def new_memory_def)

lemmas example_defs =
  example_state_def init_state_def odla_CreateComputation_def odla_CreateArgument_def
  odla_CreateConstant_def caller_buffer_def CreateValue_def new_memory_def new_memory_at_def
  Let_def update_comp_def the_comp_def float_type_def empty_computation_def

lemmas desc_defs =
  getMemoryDesc_def getMemoryDesc_type_def desc_by_tag_def getDims_def getFormatTag_def tags_def
  getDataType_def order_strides_def tag_order_def get_size_def data_type_size_def

lemma example_const [simp]:
  "is_const (value_store example_state 7)" "\<not> is_const (value_store example_state 3)"
  by (simp_all add: example_defs)

lemma example_value_7:
  "get_data_handle (value_mem example_state 7) = 7"
  "get_size (get_desc (value_mem example_state 7)) = 4"
  "value_data example_state 7 = [1, 2, 3, 4]"
  by (simp_all add: example_defs value_data_def value_mem_def desc_defs)

lemma example_value_3:
  "get_data_handle (value_mem example_state 3) = 3"
  "length (heap example_state 3) = 16"
  by (simp_all add: example_defs value_data_def value_mem_def desc_defs)

lemma example_value_2:
  "shape (value_store example_state 2) = \<lparr>shape_size = 2, shape_dims = [2, 3]\<rparr>"
  "mem (value_store example_state 2) = 2"
  "get_data_handle (value_mem example_state 2) = 2"
  "md_data_type (get_desc (value_mem example_state 2)) = f32"
  "length (value_data example_state 2) = 24"
  "next_mem example_state = 8" "next_ptr example_state = 8"
  by (simp_all add: example_defs value_data_def value_mem_def desc_defs)

lemma example_shapes:
  "shape (value_store example_state 2) = \<lparr>shape_size = 2, shape_dims = [2, 3]\<rparr>"
  "shape (value_store example_state 3) = \<lparr>shape_size = 1, shape_dims = [4]\<rparr>"
  "shape (value_store example_state 4) = \<lparr>shape_size = 1, shape_dims = [3]\<rparr>"
  "shape (value_store example_state 5) = \<lparr>shape_size = 4, shape_dims = [1, 1, 4, 4]\<rparr>"
  "shape (value_store example_state 6) = \<lparr>shape_size = 4, shape_dims = [1, 1, 3, 3]\<rparr>"
  by (simp_all add: example_defs)

lemma example_counts:
  "GetTotalElements \<lparr>shape_size = 2, shape_dims = [2, 3]\<rparr> = 6"
  "GetTotalElements \<lparr>shape_size = 1, shape_dims = [4]\<rparr> = 4"
  "GetTotalElements \<lparr>shape_size = 1, shape_dims = [3]\<rparr> = 3"
  by (simp_all add: GetTotalElements_def getDims_def)

lemma example_plan:
  "primitives (the_comp example_state) = []" "args (the_comp example_state) = []"
  "vals (the_comp example_state) = [1, 2, 3, 4, 5, 6, 7]"
  by (simp_all add: example_defs)

lemma copy_n_whole:
  "n \<le> length src \<Longrightarrow> n \<le> length dst \<Longrightarrow> copy_n src n dst 0 = take n src @ drop n dst"
proof (induction n arbitrary: dst)
  case 0
  then show ?case by (simp add: copy_n_def)
next
  case (Suc n)
  have "copy_n src (Suc n) dst 0 = (copy_n src n dst 0)[n := src ! n]"
    by (simp add: copy_n_def)
  also have "\<dots> = (take n src @ drop n dst)[n := src ! n]"
    using Suc by simp
  also have "\<dots> = take (Suc n) src @ drop (Suc n) dst"
    using Suc.prems
    by (simp add: list_update_append take_Suc_conv_app_nth upd_conv_take_nth_drop drop_Suc)
  finally show ?case .
qed

section \<open>Binding an output\<close>

text \<open>
  C1: \<open>odla_BindToOutput\<close> on a value marked constant copies the bytes of the value's
  buffer (as many as its descriptor's size) into the caller's buffer \<open>p\<close> and leaves every
  memory object, so the value's own data handle, as it was; on a value not marked
  constant it repoints the value's data handle to \<open>p\<close> and copies nothing (the heap is
  unchanged). Both cases return the success status.
\<close>

theorem odla_BindToOutput_copies_or_aliases:
  "(is_const (value_store s v) \<longrightarrow>
      (\<exists>s'. odla_BindToOutput v p ctx s = Returned (Some ODLA_SUCCESS) s'
         \<and> mems s' = mems s \<and> value_store s' = value_store s
         \<and> heap s' = (heap s)(p := copy_n (value_data s v) (get_size (get_desc (value_mem s v)))
                                    (heap s p) 0)
         \<and> (get_size (get_desc (value_mem s v)) \<le> length (value_data s v)
              \<and> get_size (get_desc (value_mem s v)) \<le> length (heap s p) \<longrightarrow>
            take (get_size (get_desc (value_mem s v))) (heap s' p)
              = take (get_size (get_desc (value_mem s v))) (value_data s v))))
   \<and> (\<not> is_const (value_store s v) \<longrightarrow>
      (\<exists>s'. odla_BindToOutput v p ctx s = Returned (Some ODLA_SUCCESS) s'
         \<and> heap s' = heap s \<and> value_store s' = value_store s
         \<and> get_data_handle (value_mem s' v) = p
         \<and> get_desc (value_mem s' v) = get_desc (value_mem s v)))"
  by (auto simp: odla_BindToOutput_def memcpy_def set_data_handle_def value_mem_def
        value_data_def copy_n_whole)

theorem odla_BindToOutput_witness:
  "is_const (value_store example_state 7)
   \<and> (\<exists>s'. odla_BindToOutput 7 3 0 example_state = Returned (Some ODLA_SUCCESS) s'
         \<and> mems s' = mems example_state
         \<and> take 4 (heap s' 3) = [1, 2, 3, 4])
   \<and> \<not> is_const (value_store example_state 3)
   \<and> (\<exists>s'. odla_BindToOutput 3 7 0 example_state = Returned (Some ODLA_SUCCESS) s'
         \<and> heap s' = heap example_state
         \<and> get_data_handle (value_mem s' 3) = 7)"
proof -
  note A = odla_BindToOutput_copies_or_aliases
             [of example_state 7 3 0, THEN conjunct1, THEN mp, OF example_const(1)]
  note B = odla_BindToOutput_copies_or_aliases
             [of example_state 3 7 0, THEN conjunct2, THEN mp, OF example_const(2)]
  from A obtain s1 where s1:
    "odla_BindToOutput 7 3 0 example_state = Returned (Some ODLA_SUCCESS) s1"
    "mems s1 = mems example_state" "take 4 (heap s1 3) = [1, 2, 3, 4]"
    unfolding example_value_7 using example_value_3(2) by auto
  from B obtain s2 where s2:
    "odla_BindToOutput 3 7 0 example_state = Returned (Some ODLA_SUCCESS) s2"
    "heap s2 = heap example_state" "get_data_handle (value_mem s2 3) = 7"
    by auto
  from s1 s2 show ?thesis by simp
qed

section \<open>The status of the API calls\<close>

text \<open>The calls whose body ends in \<^verbatim>\<open>return ODLA_SUCCESS\<close> return that status.\<close>

lemma status_calls_succeed:
  "\<exists>r s'. odla_CreateComputation out s = Returned (Some ODLA_SUCCESS, r) s'"
  "\<exists>s'. odla_SetActiveComputation c s = Returned (Some ODLA_SUCCESS) s'"
  "\<exists>s'. odla_DestroyComputation c s = Returned (Some ODLA_SUCCESS) s'"
  "\<exists>r s'. odla_CreateContext s = Returned (Some ODLA_SUCCESS, r) s'"
  "\<exists>s'. odla_DestroyContext ctx s = Returned (Some ODLA_SUCCESS) s'"
  "\<exists>s'. odla_ExecuteComputation lib c ctx s = Returned (Some ODLA_SUCCESS) s'"
  "\<exists>r s'. odla_GetValueType v s = Returned (Some ODLA_SUCCESS, r) s'"
  "\<exists>s'. odla_BindToArgument v p ctx s = Returned (Some ODLA_SUCCESS) s'"
  "\<exists>s'. odla_BindToOutput v p ctx s = Returned (Some ODLA_SUCCESS) s'"
  by (simp_all add: odla_CreateComputation_def odla_SetActiveComputation_def
        odla_DestroyComputation_def odla_CreateContext_def odla_DestroyContext_def
        odla_ExecuteComputation_def odla_GetValueType_def odla_BindToArgument_def
        odla_BindToOutput_def Let_def)

text \<open>
  C3 (the code departs from the claim): \<open>odla_SetValueAsOutput\<close> and \<open>odla_GetValueData\<close>
  are declared to return a status, but control reaches the end of their bodies without
  a \<^verbatim>\<open>return\<close> statement. The first always returns no status; the second returns no
  status or aborts at its assertion. Neither ever returns the success status.
\<close>

theorem status_missing_in_two_calls:
  "(\<exists>s'. odla_SetValueAsOutput v s = Returned None s')
   \<and> ((\<exists>s'. odla_GetValueData cfg v p s = Returned None s')
        \<or> odla_GetValueData cfg v p s = Aborted s)
   \<and> odla_SetValueAsOutput v s \<noteq> Returned (Some ODLA_SUCCESS) t
   \<and> odla_GetValueData cfg v p s \<noteq> Returned (Some ODLA_SUCCESS) t"
  by (simp add: odla_SetValueAsOutput_def odla_GetValueData_def)

section \<open>Reshape\<close>

text \<open>
  C7: for every input value and every declared output shape (so also for every shape
  whose element count equals the input's), \<open>odla_Reshape\<close> returns a new value with the
  declared shape whose memory object is the input's (the same descriptor, data handle and
  buffer); the plan (primitives and argument bindings) is unchanged, and so are the heap
  and every memory object, so no byte is moved or altered.
\<close>

theorem odla_Reshape_aliases:
  "\<exists>v s'. odla_Reshape input output_dims vid s = Returned v s'
     \<and> v = next_value s
     \<and> mem (value_store s' v) = mem (value_store s input)
     \<and> shape (value_store s' v) = output_dims
     \<and> value_mem s' v = value_mem s input
     \<and> value_data s' v = value_data s input
     \<and> primitives (the_comp s') = primitives (the_comp s)
     \<and> args (the_comp s') = args (the_comp s)
     \<and> heap s' = heap s \<and> mems s' = mems s"
  by (simp add: odla_Reshape_def CreateValue_def Let_def value_mem_def value_data_def
        update_comp_def the_comp_def)

section \<open>The type query\<close>

text \<open>
  C10: \<open>odla_GetValueType\<close> reports the element type 32-bit float and the value's own
  shape for every value; in particular a constant created with any element type (INT32,
  say) is reported as FLOAT32 with the shape it was created with. \<open>odla_CreateArgument\<close>
  gives the value a 32-bit float descriptor and a buffer sized for it, whatever element
  type was declared.
\<close>

theorem type_query_reports_float32:
  "(\<exists>t. odla_GetValueType v0 s = Returned (Some ODLA_SUCCESS, t) s
      \<and> element_type t = ODLA_FLOAT32 \<and> type_shape t = shape (value_store s v0))
   \<and> (\<exists>v s'. odla_CreateConstant ty ptr vid s = Returned v s'
      \<and> odla_GetValueType v s' =
          Returned (Some ODLA_SUCCESS,
                    \<lparr>element_type = ODLA_FLOAT32, type_shape = type_shape ty\<rparr>) s')
   \<and> (\<exists>v s'. odla_CreateArgument ty (Some nm) s = Returned v s'
      \<and> md_data_type (get_desc (value_mem s' v)) = f32
      \<and> length (value_data s' v) = get_size (getMemoryDesc (type_shape ty) ODLA_FLOAT32)
      \<and> odla_GetValueType v s' =
          Returned (Some ODLA_SUCCESS,
                    \<lparr>element_type = ODLA_FLOAT32, type_shape = type_shape ty\<rparr>) s')"
  by (simp add: odla_CreateConstant_def odla_CreateArgument_def odla_GetValueType_def
        CreateValue_def new_memory_def new_memory_at_def Let_def value_mem_def value_data_def
        update_comp_def getMemoryDesc_def desc_by_tag_def getDataType_def)

section \<open>The constant constructor\<close>

lemma Constant_verbatim:
  "bytes \<le> length src \<Longrightarrow> Constant True bytes byte_per_element src False = Inr (take bytes src)"
  by (simp add: Constant_def copy_n_whole)

text \<open>
  C9 (the code departs from the claim): with splatting enabled, the loop runs its
  byte offset \<open>i\<close> in steps of \<open>byte_per_element\<close> up to the element count
  \<open>bytes / byte_per_element\<close>, not up to \<open>bytes\<close>. For four 4-byte elements the pattern
  is written once and the other twelve bytes stay zero; for three 4-byte elements the
  offset steps over the bound and the loop writes past the end of the buffer.
\<close>

theorem Constant_splat_stops_early:
  "Constant True 16 4 [1, 2, 3, 4] True = Inr [1, 2, 3, 4, 0, 0, 0, 0, 0, 0, 0, 0, 0, 0, 0, 0]
   \<and> Constant True 12 4 [1, 2, 3, 4] True = Inl OutOfBounds"
  by code_simp

section \<open>Immediate mode\<close>

lemma InterpretIfNeeded_clears:
  "build_as_interpreter cfg \<Longrightarrow> g_interpret_mode s \<Longrightarrow>
   primitives (the_comp (InterpretIfNeeded cfg lib s)) = []
   \<and> args (the_comp (InterpretIfNeeded cfg lib s)) = []"
  by (simp add: InterpretIfNeeded_def Let_def split: option.splits prod.splits)

lemma InterpretIfNeeded_compiled:
  "\<not> build_as_interpreter cfg \<or> \<not> g_interpret_mode s \<Longrightarrow> InterpretIfNeeded cfg lib s = s"
  by (auto simp: InterpretIfNeeded_def)

lemma mode_steps [simp]:
  "g_interpret_mode (push_primitive p s) = g_interpret_mode s"
  "g_interpret_mode (push_args a s) = g_interpret_mode s"
  "g_interpret_mode (snd (CreateValue m sh vid s)) = g_interpret_mode s"
  "g_interpret_mode (snd (new_memory d s)) = g_interpret_mode s"
  "g_interpret_mode (set_value_mem v m s) = g_interpret_mode s"
  "g_interpret_mode (InterpretIfNeeded cfg lib s) = g_interpret_mode s"
  by (simp_all add: push_primitive_def push_args_def CreateValue_def new_memory_def Let_def
        set_value_mem_def InterpretIfNeeded_def odla_CreateContext_def make_stream_def
        split: option.splits)

text \<open>
  In immediate mode the lowering calls that end in \<open>InterpretIfNeeded\<close> return with a
  drained plan: the elementwise calls, convolution and deconvolution, and
  \<open>odla_Gemm\<close> with a bias (through \<open>odla_Add\<close>).
\<close>

lemma InterpretIfNeeded_drains:
  "build_as_interpreter cfg \<Longrightarrow> g_interpret_mode s \<Longrightarrow> plan_drained (InterpretIfNeeded cfg lib s)"
  by (simp add: plan_drained_def InterpretIfNeeded_clears)

lemma binary_eltwise_drains:
  assumes "build_as_interpreter cfg" "g_interpret_mode s"
    and "binary_eltwise cfg lib algo lhs rhs vid s = Returned v s'"
  shows "plan_drained s'"
  using assms
  by (auto simp: binary_eltwise_def Let_def split_def InterpretIfNeeded_drains
        split: assertion.splits)

lemma unary_calls_drain:
  assumes "build_as_interpreter cfg" "g_interpret_mode s"
  shows "odla_Sigmoid cfg lib input vid s = Returned v s' \<Longrightarrow> plan_drained s'"
    and "odla_LeakyRelu cfg lib input alpha vid s = Returned v s' \<Longrightarrow> plan_drained s'"
    and "odla_Relu cfg lib input vid s = Returned v s' \<Longrightarrow> plan_drained s'"
    and "odla_Clamp cfg lib input lo hi vid s = Returned v s' \<Longrightarrow> plan_drained s'"
  using assms
  by (auto simp: odla_Sigmoid_def odla_LeakyRelu_def odla_Relu_def odla_Clamp_def Let_def split_def
        InterpretIfNeeded_drains)

lemma lower_conv_drains:
  assumes "build_as_interpreter cfg" "g_interpret_mode s"
  shows "plan_drained (snd (lower_conv cfg lib prim pd cl input kern od vid s))"
    and "g_interpret_mode (snd (lower_conv cfg lib prim pd cl input kern od vid s))"
  using assms
  by (simp_all add: lower_conv_def Let_def split_def InterpretIfNeeded_drains)

lemma conv_calls_drain:
  assumes "build_as_interpreter cfg" "g_interpret_mode s"
  shows "odla_Conv cfg lib input input_layout grp kern kernel_layout strides dilations
           paddings_front paddings_back bias output_dims vid s = Returned v s' \<Longrightarrow> plan_drained s'"
    and "odla_DeConv cfg lib input input_layout grp kern kernel_layout strides dilations
           paddings_front paddings_back bias output_dims vid s = Returned v s' \<Longrightarrow> plan_drained s'"
  by (auto simp: odla_Conv_def odla_DeConv_def odla_Add_def Let_def split_def
        lower_conv_drains [OF assms]
        split: option.splits dest!: binary_eltwise_drains [OF assms(1), rotated])

lemma odla_Gemm_with_bias_drains:
  assumes "build_as_interpreter cfg" "g_interpret_mode s"
    and "odla_Gemm cfg lib lhs tlhs rhs trhs (Some b) output_dims vid s = Returned v s'"
  shows "plan_drained s'"
  using assms(2,3)
  by (auto simp: odla_Gemm_def odla_Add_def Let_def split_def
        split: if_splits dest!: binary_eltwise_drains [OF assms(1), rotated])

text \<open>
  C2 (the code departs from the claim): \<open>odla_Transpose\<close> appends its plan entry and
  returns without calling \<open>InterpretIfNeeded\<close>, in every mode. So in immediate mode too
  the plan holds the new entry and its argument bindings when the call returns; they stay
  there until a later lowering call drains the plan. \<open>odla_Gemm\<close> without a bias does the
  same.
\<close>

theorem odla_Transpose_leaves_plan_entry:
  "\<exists>v s' p a. odla_Transpose input permutations output_dims vid s = Returned v s'
     \<and> primitives (the_comp s') = primitives (the_comp s) @ [p]
     \<and> args (the_comp s') = args (the_comp s) @ [a]
     \<and> primitives (the_comp s') \<noteq> []
     \<and> g_interpret_mode s' = g_interpret_mode s"
  by (simp add: odla_Transpose_def CreateValue_def new_memory_def Let_def push_primitive_def
        push_args_def update_comp_def the_comp_def)

lemma odla_Gemm_without_bias_leaves_plan_entry:
  "ndebug cfg \<or> (shape_size (shape (value_store s lhs)) = 2 \<and> shape_size (shape (value_store s rhs)) = 2) \<Longrightarrow>
   \<exists>v s' p a. odla_Gemm cfg lib lhs tlhs rhs trhs None output_dims vid s = Returned v s'
     \<and> primitives (the_comp s') = primitives (the_comp s) @ [p]
     \<and> args (the_comp s') = args (the_comp s) @ [a]"
  by (auto simp: odla_Gemm_def CreateValue_def new_memory_def Let_def push_primitive_def
        push_args_def update_comp_def the_comp_def)

section \<open>Elementwise binary on operands of different rank\<close>

lemma fold_update_nth:
  "i < length st \<Longrightarrow>
   fold (\<lambda>i st. st[i := f i]) [0..<n] st ! i = (if i < n then f i else st ! i)"
proof (induction n)
  case 0
  then show ?case by simp
next
  case (Suc n)
  have len: "length (fold (\<lambda>i st. st[i := f i]) ks st) = length st" for ks
    by (induction ks arbitrary: st) simp_all
  show ?case using Suc len[of "[0..<n]"] by (cases "i = n") (auto simp: nth_list_update)
qed

lemma set_strides_nth:
  "i < length (md_strides d) \<Longrightarrow> i < length strs \<Longrightarrow> md_strides (set_strides strs d) ! i = strs ! i"
  by (simp add: set_strides_def fold_update_nth)

lemma length_order_strides: "length (order_strides ds order) = length ds"
proof -
  have "length (fst (foldr (\<lambda>d (strs, acc). (strs[d := acc], acc * ds ! d)) order (st, a))) = length st" for st a
    by (induction order) (simp_all add: split_def)
  then show ?thesis by (simp add: order_strides_def)
qed

lemma length_strides_desc_by_tag: "length (md_strides (desc_by_tag ds dt t)) = length ds"
  by (simp add: desc_by_tag_def length_order_strides)


lemma binary_eltwise_aborts:
  assumes "shape_size (shape (value_store s lhs)) \<noteq> shape_size (shape (value_store s rhs))"
    and "divisibility_assert (ndebug cfg) (GetTotalElements (shape (value_store s lhs)))
           (GetTotalElements (shape (value_store s rhs))) = Failed"
  shows "\<exists>s'. binary_eltwise cfg lib algo lhs rhs vid s = Aborted s'
           \<and> the_comp s' = the_comp s \<and> value_store s' = value_store s"
  using assms by (simp add: binary_eltwise_def Let_def split_def)

lemma binary_eltwise_returns:
  assumes "shape_size (shape (value_store s lhs)) \<noteq> shape_size (shape (value_store s rhs))"
    and "divisibility_assert (ndebug cfg) (GetTotalElements (shape (value_store s lhs)))
           (GetTotalElements (shape (value_store s rhs))) = Passed"
  shows "\<exists>v s4. binary_eltwise cfg lib algo lhs rhs vid s = Returned v (InterpretIfNeeded cfg lib s4)
           \<and> primitives (the_comp s4) = primitives (the_comp s) @
               [binary algo
                  (desc_by_tag (getDims (shape (value_store s lhs)))
                     (md_data_type (get_desc (value_mem s lhs))) (getFormatTag (shape (value_store s lhs))))
                  (set_strides (broadcast_strides (shape (value_store s lhs)) (shape (value_store s rhs)))
                     (desc_by_tag (getDims (shape (value_store s lhs)))
                        (md_data_type (get_desc (value_mem s lhs))) (getFormatTag (shape (value_store s lhs)))))
                  (desc_by_tag (getDims (shape (value_store s lhs)))
                     (md_data_type (get_desc (value_mem s lhs))) (getFormatTag (shape (value_store s lhs))))]
           \<and> length (args (the_comp s4)) = Suc (length (args (the_comp s)))
           \<and> vals (the_comp s4) = vals (the_comp s) @ [v]"
proof -
  let ?lmd = "desc_by_tag (getDims (shape (value_store s lhs)))
                (md_data_type (get_desc (value_mem s lhs))) (getFormatTag (shape (value_store s lhs)))"
  let ?rmd = "set_strides (broadcast_strides (shape (value_store s lhs)) (shape (value_store s rhs))) ?lmd"
  let ?s1 = "snd (new_memory ?lmd s)"
  let ?s2 = "push_primitive (binary algo ?lmd ?rmd ?lmd) ?s1"
  let ?cv = "CreateValue (fst (new_memory ?lmd s)) (shape (value_store ?s2 lhs)) vid ?s2"
  let ?s4 = "push_args [DNNL_ARG_SRC_0 \<mapsto> mem (value_store (snd ?cv) lhs),
                        DNNL_ARG_SRC_1 \<mapsto> mem (value_store (snd ?cv) rhs),
                        DNNL_ARG_DST \<mapsto> fst (new_memory ?lmd s)] (snd ?cv)"
  have "binary_eltwise cfg lib algo lhs rhs vid s = Returned (fst ?cv) (InterpretIfNeeded cfg lib ?s4)"
    using assms by (simp add: binary_eltwise_def Let_def split_def del: the_comp_steps value_store_steps)
  moreover have "primitives (the_comp ?s4) = primitives (the_comp s) @ [binary algo ?lmd ?rmd ?lmd]"
    by simp
  moreover have "length (args (the_comp ?s4)) = Suc (length (args (the_comp s)))"
    by simp
  moreover have "vals (the_comp ?s4) = vals (the_comp s) @ [fst ?cv]"
    by simp
  ultimately show ?thesis by blast
qed

lemma broadcast_view_zero:
  assumes "i < nat (shape_size dl - shape_size dr)" "i < length ds"
  shows "md_strides (set_strides (broadcast_strides dl dr) (desc_by_tag ds dt t)) ! i = 0"
  using assms
  by (simp add: set_strides_nth length_strides_desc_by_tag broadcast_strides_def nth_append)


lemma divisibility_assert_cases:
  "\<not> nd \<Longrightarrow> ln < rn \<or> (rn \<noteq> 0 \<and> ln smod rn \<noteq> 0) \<Longrightarrow> divisibility_assert nd ln rn = Failed"
  "nd \<or> (rn \<le> ln \<and> rn \<noteq> 0 \<and> ln smod rn = 0) \<Longrightarrow> divisibility_assert nd ln rn = Passed"
  by (auto simp: divisibility_assert_def)

text \<open>
  C4, as the code has it: the divisibility rule is an \<^verbatim>\<open>assert\<close>. For operands of
  different rank, with \<open>ln\<close> and \<open>rn\<close> the element counts \<open>GetTotalElements\<close> computes:
  in a build with assertions, when \<open>rn\<close> exceeds \<open>ln\<close>, or is non-zero and does not
  divide \<open>ln\<close> evenly, the call aborts the process at the assertion, with the active
  computation (plan and value registry) and every value as before the call. When the
  assertion passes, and always in a build without assertions, the call hands
  \<open>InterpretIfNeeded\<close> a plan with one more entry, a binary primitive whose right-hand
  descriptor has the left operand's dims and stride zero on each leading dimension that
  the right operand lacks.
\<close>

theorem binary_eltwise_rank_mismatch:
  assumes "shape_size (shape (value_store s lhs)) \<noteq> shape_size (shape (value_store s rhs))"
    and "ln = GetTotalElements (shape (value_store s lhs))"
    and "rn = GetTotalElements (shape (value_store s rhs))"
  shows
    "(\<not> ndebug cfg \<and> (ln < rn \<or> (rn \<noteq> 0 \<and> ln smod rn \<noteq> 0)) \<longrightarrow>
        (\<exists>s'. binary_eltwise cfg lib algo lhs rhs vid s = Aborted s'
           \<and> the_comp s' = the_comp s \<and> value_store s' = value_store s))
     \<and> (ndebug cfg \<or> (rn \<le> ln \<and> rn \<noteq> 0 \<and> ln smod rn = 0) \<longrightarrow>
        (\<exists>v s4 lhs_md rhs_md.
           binary_eltwise cfg lib algo lhs rhs vid s = Returned v (InterpretIfNeeded cfg lib s4)
           \<and> primitives (the_comp s4) = primitives (the_comp s) @ [binary algo lhs_md rhs_md lhs_md]
           \<and> md_dims rhs_md = getDims (shape (value_store s lhs))
           \<and> (\<forall>i. i < nat (shape_size (shape (value_store s lhs)) - shape_size (shape (value_store s rhs)))
                  \<and> i < length (getDims (shape (value_store s lhs)))
                \<longrightarrow> md_strides rhs_md ! i = 0)))"
proof (intro conjI impI)
  assume "\<not> ndebug cfg \<and> (ln < rn \<or> (rn \<noteq> 0 \<and> ln smod rn \<noteq> 0))"
  then have "divisibility_assert (ndebug cfg) ln rn = Failed"
    by (simp add: divisibility_assert_cases)
  then show "\<exists>s'. binary_eltwise cfg lib algo lhs rhs vid s = Aborted s'
           \<and> the_comp s' = the_comp s \<and> value_store s' = value_store s"
    using binary_eltwise_aborts [OF assms(1)] assms(2,3) by simp
next
  assume "ndebug cfg \<or> (rn \<le> ln \<and> rn \<noteq> 0 \<and> ln smod rn = 0)"
  then have "divisibility_assert (ndebug cfg) ln rn = Passed"
    by (simp add: divisibility_assert_cases)
  then obtain v s4 where r:
    "binary_eltwise cfg lib algo lhs rhs vid s = Returned v (InterpretIfNeeded cfg lib s4)"
    "primitives (the_comp s4) = primitives (the_comp s) @
       [binary algo
          (desc_by_tag (getDims (shape (value_store s lhs)))
             (md_data_type (get_desc (value_mem s lhs))) (getFormatTag (shape (value_store s lhs))))
          (set_strides (broadcast_strides (shape (value_store s lhs)) (shape (value_store s rhs)))
             (desc_by_tag (getDims (shape (value_store s lhs)))
                (md_data_type (get_desc (value_mem s lhs))) (getFormatTag (shape (value_store s lhs)))))
          (desc_by_tag (getDims (shape (value_store s lhs)))
             (md_data_type (get_desc (value_mem s lhs))) (getFormatTag (shape (value_store s lhs))))]"
    using binary_eltwise_returns [OF assms(1), of cfg lib algo vid] assms(2,3) by auto
  have "md_dims (set_strides strs (desc_by_tag ds dt t)) = ds" for strs ds dt t
    by (simp add: set_strides_def desc_by_tag_def)
  with r show "\<exists>v s4 lhs_md rhs_md.
           binary_eltwise cfg lib algo lhs rhs vid s = Returned v (InterpretIfNeeded cfg lib s4)
           \<and> primitives (the_comp s4) = primitives (the_comp s) @ [binary algo lhs_md rhs_md lhs_md]
           \<and> md_dims rhs_md = getDims (shape (value_store s lhs))
           \<and> (\<forall>i. i < nat (shape_size (shape (value_store s lhs)) - shape_size (shape (value_store s rhs)))
                  \<and> i < length (getDims (shape (value_store s lhs)))
                \<longrightarrow> md_strides rhs_md ! i = 0)"
    by (intro exI conjI) (assumption | simp add: broadcast_view_zero)+
qed


theorem binary_eltwise_rank_mismatch_witness:
  "shape_size (shape (value_store example_state 2)) \<noteq> shape_size (shape (value_store example_state 3))
   \<and> GetTotalElements (shape (value_store example_state 2)) = 6
   \<and> GetTotalElements (shape (value_store example_state 3)) = 4
   \<and> \<not> ndebug debug_build \<and> (6 :: int) smod 4 \<noteq> 0
   \<and> (\<exists>s'. binary_eltwise debug_build plain_lib binary_add 2 3 None example_state = Aborted s'
         \<and> the_comp s' = the_comp example_state \<and> value_store s' = value_store example_state)
   \<and> shape_size (shape (value_store example_state 2)) \<noteq> shape_size (shape (value_store example_state 4))
   \<and> GetTotalElements (shape (value_store example_state 4)) = 3
   \<and> (6 :: int) smod 3 = 0
   \<and> (\<exists>v s4 lhs_md rhs_md.
         binary_eltwise debug_build plain_lib binary_add 2 4 None example_state
           = Returned v (InterpretIfNeeded debug_build plain_lib s4)
         \<and> primitives (the_comp s4) = [binary binary_add lhs_md rhs_md lhs_md]
         \<and> md_dims rhs_md = [2, 3]
         \<and> md_strides rhs_md ! 0 = 0)"
proof -
  have r: "shape_size (shape (value_store example_state 2)) \<noteq> shape_size (shape (value_store example_state 3))"
    "shape_size (shape (value_store example_state 2)) \<noteq> shape_size (shape (value_store example_state 4))"
    by (simp_all add: example_shapes)
  have c: "(6::int) = GetTotalElements (shape (value_store example_state 2))"
    "(4::int) = GetTotalElements (shape (value_store example_state 3))"
    "(3::int) = GetTotalElements (shape (value_store example_state 4))"
    by (simp_all add: example_shapes example_counts)
  have d: "\<not> ndebug debug_build" by (simp add: debug_build_def)
  note A = binary_eltwise_rank_mismatch [OF r(1) c(1) c(2), of debug_build plain_lib binary_add None,
             THEN conjunct1, THEN mp]
  note B = binary_eltwise_rank_mismatch [OF r(2) c(1) c(3), of debug_build plain_lib binary_add None,
             THEN conjunct2, THEN mp]
  have a: "\<exists>s'. binary_eltwise debug_build plain_lib binary_add 2 3 None example_state = Aborted s'
         \<and> the_comp s' = the_comp example_state \<and> value_store s' = value_store example_state"
    by (rule A) (simp add: d)
  from B obtain v s4 lhs_md rhs_md where b:
    "binary_eltwise debug_build plain_lib binary_add 2 4 None example_state
       = Returned v (InterpretIfNeeded debug_build plain_lib s4)"
    "primitives (the_comp s4) = primitives (the_comp example_state) @ [binary binary_add lhs_md rhs_md lhs_md]"
    "md_dims rhs_md = getDims (shape (value_store example_state 2))"
    "\<forall>i. i < nat (shape_size (shape (value_store example_state 2)) - shape_size (shape (value_store example_state 4)))
            \<and> i < length (getDims (shape (value_store example_state 2)))
        \<longrightarrow> md_strides rhs_md ! i = 0"
    by auto
  from b(4) have "md_strides rhs_md ! 0 = 0"
    by (simp add: example_shapes getDims_def)
  with b(1,2,3) have "\<exists>v s4 lhs_md rhs_md.
         binary_eltwise debug_build plain_lib binary_add 2 4 None example_state
           = Returned v (InterpretIfNeeded debug_build plain_lib s4)
         \<and> primitives (the_comp s4) = [binary binary_add lhs_md rhs_md lhs_md]
         \<and> md_dims rhs_md = [2, 3]
         \<and> md_strides rhs_md ! 0 = 0"
    by (auto simp: example_plan example_shapes getDims_def)
  with a r c d show ?thesis by simp
qed

text \<open>
  The claim as stated fails in a build without assertions: adding a [4] operand to a
  [2,3] operand (4 does not divide 6) returns normally with one more plan entry.
\<close>

theorem binary_eltwise_unchecked_without_assertions:
  "shape_size (shape (value_store example_state 2)) \<noteq> shape_size (shape (value_store example_state 3))
   \<and> GetTotalElements (shape (value_store example_state 2)) = 6
   \<and> GetTotalElements (shape (value_store example_state 3)) = 4
   \<and> (6 :: int) smod 4 \<noteq> 0
   \<and> (\<exists>v s'. odla_Add release_build plain_lib 2 3 None example_state = Returned v s'
         \<and> length (primitives (the_comp s')) = Suc (length (primitives (the_comp example_state)))
         \<and> length (args (the_comp s')) = Suc (length (args (the_comp example_state))))"
proof -
  have r: "shape_size (shape (value_store example_state 2)) \<noteq> shape_size (shape (value_store example_state 3))"
    by (simp add: example_shapes)
  have "divisibility_assert (ndebug release_build)
          (GetTotalElements (shape (value_store example_state 2)))
          (GetTotalElements (shape (value_store example_state 3))) = Passed"
    by (simp add: divisibility_assert_def release_build_def)
  from binary_eltwise_returns [OF r this, of plain_lib binary_add None]
  obtain v s4 where b:
    "binary_eltwise release_build plain_lib binary_add 2 3 None example_state
       = Returned v (InterpretIfNeeded release_build plain_lib s4)"
    "length (primitives (the_comp s4)) = Suc (length (primitives (the_comp example_state)))"
    "length (args (the_comp s4)) = Suc (length (args (the_comp example_state)))"
    by auto
  have "InterpretIfNeeded release_build plain_lib s4 = s4"
    by (simp add: InterpretIfNeeded_compiled release_build_def)
  with b r show ?thesis
    by (simp add: odla_Add_def example_shapes example_counts)
qed

section \<open>Dilations of convolution and deconvolution\<close>

lemma bind_None_if: "(\<And>x. f x = None) \<Longrightarrow> Option.bind m f = None"
  by (cases m) simp_all

lemma odla_Conv_locals_dilation:
  "\<not> ndebug cfg \<Longrightarrow> fst dilations \<noteq> 1 \<or> snd dilations \<noteq> 1 \<Longrightarrow>
   odla_Conv_locals cfg s input input_layout grp kern kernel_layout strides dilations
     paddings_front paddings_back output_dims = None"
  unfolding odla_Conv_locals_def Let_def
  by (intro bind_None_if) (auto simp: split_def)

lemma odla_DeConv_locals_dilation:
  "\<not> ndebug cfg \<Longrightarrow> fst dilations \<noteq> 1 \<or> snd dilations \<noteq> 1 \<Longrightarrow>
   odla_DeConv_locals cfg s input input_layout grp kern kernel_layout strides dilations
     paddings_front paddings_back output_dims = None"
  unfolding odla_DeConv_locals_def Let_def
  by (intro bind_None_if) (auto simp: split_def)

text \<open>
  C5, as the code has it: the dilation check is an \<^verbatim>\<open>assert\<close> placed before the first
  write to the program state. In a build with assertions, a convolution or deconvolution
  call in which a dilation differs from 1 aborts the process at an assertion, with the
  whole program state (so the plan and the value registry) as before the call.
\<close>

theorem dilation_aborts_with_assertions:
  "\<not> ndebug cfg \<Longrightarrow> fst dilations \<noteq> 1 \<or> snd dilations \<noteq> 1 \<Longrightarrow>
   odla_Conv cfg lib input input_layout grp kern kernel_layout strides dilations
       paddings_front paddings_back bias output_dims vid s = Aborted s
   \<and> odla_DeConv cfg lib input input_layout grp kern kernel_layout strides dilations
       paddings_front paddings_back bias output_dims vid s = Aborted s"
  by (simp add: odla_Conv_def odla_DeConv_def odla_Conv_locals_dilation odla_DeConv_locals_dilation)

theorem dilation_aborts_witness:
  "\<not> ndebug debug_build \<and> fst ((2, 2) :: nat \<times> nat) \<noteq> 1
   \<and> odla_Conv debug_build plain_lib 5 ODLA_CHANNELS_FIRST 1 6 ODLA_OIS (1, 1) (2, 2) (0, 0) (0, 0)
        None \<lparr>shape_size = 4, shape_dims = [1, 1, 2, 2]\<rparr> None example_state
      = Aborted example_state
   \<and> odla_DeConv debug_build plain_lib 5 ODLA_CHANNELS_FIRST 1 6 ODLA_OIS (1, 1) (2, 2) (0, 0) (0, 0)
        None \<lparr>shape_size = 4, shape_dims = [1, 1, 6, 6]\<rparr> None example_state
      = Aborted example_state"
proof -
  have d: "\<not> ndebug debug_build" by (simp add: debug_build_def)
  have n: "fst ((2, 2) :: nat \<times> nat) \<noteq> 1 \<or> snd ((2, 2) :: nat \<times> nat) \<noteq> 1" by simp
  from dilation_aborts_with_assertions [OF d n] d show ?thesis by simp
qed

lemma lower_conv_extends:
  assumes "\<not> build_as_interpreter cfg"
  shows "length (primitives (the_comp s)) < length (primitives (the_comp (snd (lower_conv cfg lib prim pd cl input kern od vid s))))
       \<and> (\<exists>v. vals (the_comp (snd (lower_conv cfg lib prim pd cl input kern od vid s))) = vals (the_comp s) @ [v])"
  using assms
  by (simp add: lower_conv_def Let_def split_def InterpretIfNeeded_compiled)

lemma odla_Conv_locals_release:
  "ndebug cfg \<Longrightarrow>
   \<exists>cl. odla_Conv_locals cfg s input input_layout grp kern kernel_layout strides dilations
     paddings_front paddings_back output_dims = Some cl"
  by (cases input_layout; cases kernel_layout)
     (simp_all add: odla_Conv_locals_def Let_def getNCHWDims_def getOIHWDims_def getGOIHWDims_def
        getFormatTag_layout_def)

lemma odla_Conv_release:
  assumes "ndebug cfg" "\<not> build_as_interpreter cfg"
  shows "\<exists>v s'. odla_Conv cfg lib input input_layout grp kern kernel_layout strides dilations
             paddings_front paddings_back None output_dims vid s = Returned v s'
          \<and> length (primitives (the_comp s)) < length (primitives (the_comp s'))
          \<and> (\<exists>u. vals (the_comp s') = vals (the_comp s) @ [u])"
proof -
  from odla_Conv_locals_release [OF assms(1)] obtain cl where
    "odla_Conv_locals cfg s input input_layout grp kern kernel_layout strides dilations
     paddings_front paddings_back output_dims = Some cl" by blast
  then show ?thesis
    using lower_conv_extends [OF assms(2)]
    by (simp add: odla_Conv_def Let_def split_def)
qed

text \<open>
  The claim as stated fails in a build without assertions: a convolution of the
  [1,1,4,4] argument with the [1,1,3,3] argument and dilations (2, 2) returns a value,
  with a longer plan and one more value in the registry.
\<close>

theorem dilation_ignored_without_assertions:
  "fst ((2, 2) :: nat \<times> nat) \<noteq> 1
   \<and> (\<exists>v s'. odla_Conv release_build plain_lib 5 ODLA_CHANNELS_FIRST 1 6 ODLA_OIS
               (1, 1) (2, 2) (0, 0) (0, 0) None \<lparr>shape_size = 4, shape_dims = [1, 1, 2, 2]\<rparr> None
               example_state = Returned v s'
         \<and> length (primitives (the_comp example_state)) < length (primitives (the_comp s'))
         \<and> (\<exists>u. vals (the_comp s') = vals (the_comp example_state) @ [u]))"
  using odla_Conv_release [where cfg = release_build and s = example_state and lib = plain_lib]
  by (simp add: release_build_def)

section \<open>Transpose followed by the inverse transpose\<close>

subsection \<open>Row-major strides\<close>

lemma length_row_major [simp]: "length (row_major ds) = length ds"
  by (induction ds) simp_all

lemma row_major_nth: "j < length ds \<Longrightarrow> row_major ds ! j = prod_list (drop (Suc j) ds)"
proof (induction ds arbitrary: j)
  case Nil
  then show ?case by simp
next
  case (Cons d ds)
  then show ?case by (cases j) simp_all
qed

lemma length_getStrides_loop [simp]: "length (getStrides_loop ds k st) = length st"
  by (induction ds k st rule: getStrides_loop.induct) simp_all

subsection \<open>Logical indices and offsets\<close>

lemma all_indices_iff: "idx \<in> set (all_indices ds) \<longleftrightarrow> in_range idx ds"
proof (induction ds arbitrary: idx)
  case Nil
  then show ?case by (simp add: in_range_def)
next
  case (Cons d ds)
  show ?case
  proof (cases idx)
    case Nil
    then show ?thesis by (auto simp: in_range_def)
  next
    case (Cons i idx')
    have "i < nat d \<longleftrightarrow> int i < d" by linarith
    then show ?thesis using Cons Cons.IH [of idx'] by (auto simp: in_range_def)
  qed
qed

lemma offset_Nil [simp]: "offset [] strs = 0" "offset idx [] = 0"
  by (simp_all add: offset_def)

lemma offset_Cons [simp]: "offset (i # idx) (s # strs) = int i * s + offset idx strs"
  by (simp add: offset_def)

lemma in_range_Cons [simp]: "in_range (i # idx) (d # ds) \<longleftrightarrow> int i < d \<and> in_range idx ds"
  by (simp add: in_range_def)

lemma in_range_Nil [simp]: "in_range idx [] \<longleftrightarrow> idx = []" "in_range [] ds \<longleftrightarrow> ds = []"
  by (auto simp: in_range_def)

lemma in_range_length: "in_range idx ds \<Longrightarrow> length idx = length ds"
  by (simp add: in_range_def list_all2_lengthD)

lemma in_range_nth: "in_range idx ds \<Longrightarrow> i < length ds \<Longrightarrow> int (idx ! i) < ds ! i"
  unfolding in_range_def by (drule list_all2_nthD2) simp_all

lemma in_range_pos: "in_range idx ds \<Longrightarrow> 0 < prod_list ds"
proof (induction ds arbitrary: idx)
  case Nil
  then show ?case by simp
next
  case (Cons d ds)
  then obtain i idx' where "idx = i # idx'" by (cases idx) (auto simp: in_range_def)
  with Cons show ?case by (auto intro: mult_pos_pos)
qed

lemma offset_bounds:
  "in_range idx ds \<Longrightarrow> 0 \<le> offset idx (row_major ds) \<and> offset idx (row_major ds) < prod_list ds"
proof (induction ds arbitrary: idx)
  case Nil
  then show ?case by simp
next
  case (Cons d ds)
  then obtain i idx' where idx: "idx = i # idx'" by (cases idx) (auto simp: in_range_def)
  with Cons.prems have i: "int i < d" and r: "in_range idx' ds" by simp_all
  from Cons.IH [OF r] have b: "0 \<le> offset idx' (row_major ds)" "offset idx' (row_major ds) < prod_list ds"
    by simp_all
  have p: "0 < prod_list ds" using r by (rule in_range_pos)
  have "int i * prod_list ds + offset idx' (row_major ds) < (int i + 1) * prod_list ds"
    using b by (simp add: algebra_simps)
  also have "\<dots> \<le> d * prod_list ds"
    using i p by (intro mult_right_mono) simp_all
  finally show ?case using idx b p by simp
qed

lemma offset_inj:
  "in_range idx ds \<Longrightarrow> in_range idx' ds \<Longrightarrow>
   offset idx (row_major ds) = offset idx' (row_major ds) \<Longrightarrow> idx = idx'"
proof (induction ds arbitrary: idx idx')
  case Nil
  then show ?case by simp
next
  case (Cons d ds)
  from Cons.prems obtain i r where idx: "idx = i # r" by (cases idx) (auto simp: in_range_def)
  from Cons.prems obtain i' r' where idx': "idx' = i' # r'" by (cases idx') (auto simp: in_range_def)
  from Cons.prems idx idx' have r: "in_range r ds" "in_range r' ds" by simp_all
  let ?p = "prod_list ds"
  let ?o = "offset r (row_major ds)" and ?o' = "offset r' (row_major ds)"
  have b: "0 \<le> ?o" "?o < ?p" "0 \<le> ?o'" "?o' < ?p"
    using offset_bounds [OF r(1)] offset_bounds [OF r(2)] by simp_all
  have eq: "int i * ?p + ?o = int i' * ?p + ?o'"
    using Cons.prems(3) idx idx' by simp
  have "(int i * ?p + ?o) div ?p = int i" "(int i' * ?p + ?o') div ?p = int i'"
    using b by (simp_all add: div_pos_pos_trivial)
  with eq have ii: "i = i'" by simp
  with eq have "?o = ?o'" by simp
  with Cons.IH [OF r] ii idx idx' show ?case by simp
qed

lemma offset_surj:
  "list_all (\<lambda>d. 0 \<le> d) ds \<Longrightarrow> 0 \<le> k \<Longrightarrow> k < prod_list ds \<Longrightarrow>
   \<exists>idx. in_range idx ds \<and> offset idx (row_major ds) = k"
proof (induction ds arbitrary: k)
  case Nil
  then show ?case by simp
next
  case (Cons d ds)
  let ?p = "prod_list ds"
  from Cons.prems have d: "0 \<le> d" and ds: "list_all (\<lambda>d. 0 \<le> d) ds" by simp_all
  have nn: "0 \<le> ?p" using ds by (induction ds) simp_all
  from Cons.prems have "k < d * ?p" by simp
  with Cons.prems(2) nn d have p: "0 < ?p" by (cases "?p = 0") auto
  have "0 \<le> k mod ?p" "k mod ?p < ?p" using p by simp_all
  from Cons.IH [OF ds this] obtain r where r: "in_range r ds" "offset r (row_major ds) = k mod ?p"
    by blast
  have q: "0 \<le> k div ?p" using Cons.prems(2) p by (simp add: pos_imp_zdiv_nonneg_iff)
  have "k div ?p < d"
  proof (rule ccontr)
    assume "\<not> k div ?p < d"
    then have "d * ?p \<le> (k div ?p) * ?p" using p by (intro mult_right_mono) simp_all
    also have "\<dots> \<le> k" using p by (metis Cons.prems(2) div_mult_mod_eq le_add_same_cancel1 pos_mod_sign)
    finally show False using \<open>k < d * ?p\<close> by simp
  qed
  then have "in_range (nat (k div ?p) # r) (d # ds)" using r q by simp
  moreover have "offset (nat (k div ?p) # r) (row_major (d # ds)) = k"
    using r q by simp
  ultimately show ?case by blast
qed

subsection \<open>What a repacking copy writes\<close>

lemma length_copy_element [simp]: "length (copy_element sz src soff d doff) = length d"
proof -
  have "length (fold (\<lambda>k d. d[doff * sz + k := src ! (soff * sz + k)]) ks d) = length d" for ks d
    by (induction ks arbitrary: d) simp_all
  then show ?thesis by (simp add: copy_element_def)
qed

lemma fold_update_range_nth:
  "p < length d \<Longrightarrow>
   fold (\<lambda>k d. d[a + k := g k]) [0..<n] d ! p = (if a \<le> p \<and> p < a + n then g (p - a) else d ! p)"
proof (induction n)
  case 0
  then show ?case by auto
next
  case (Suc n)
  have len: "length (fold (\<lambda>k d. d[a + k := g k]) ks d) = length d" for ks
    by (induction ks arbitrary: d) simp_all
  show ?case
  proof (cases "p = a + n")
    case True
    then show ?thesis using Suc.prems len [of "[0..<n]"] by simp
  next
    case False
    then show ?thesis using Suc len [of "[0..<n]"] by (auto simp: nth_list_update)
  qed
qed

lemma copy_element_nth:
  "p < length d \<Longrightarrow>
   copy_element sz src soff d doff ! p =
     (if doff * sz \<le> p \<and> p < doff * sz + sz then src ! (soff * sz + (p - doff * sz)) else d ! p)"
  unfolding copy_element_def by (rule fold_update_range_nth)

lemma length_fold_copy [simp]:
  "length (fold (\<lambda>i d. copy_element sz src (soff i) d (doff i)) idxs dst) = length dst"
  by (induction idxs arbitrary: dst) simp_all

lemma length_reorder_bytes [simp]: "length (reorder_bytes sz ds sstr dstr src dst) = length dst"
  by (simp add: reorder_bytes_def)

lemma block_unique:
  fixes a b k sz :: nat
  assumes "a * sz \<le> b * sz + k" "b * sz + k < a * sz + sz" "k < sz"
  shows "a = b"
proof (rule ccontr)
  assume "a \<noteq> b"
  then consider "a < b" | "b < a" by linarith
  then show False
  proof cases
    case 1
    then have "Suc a * sz \<le> b * sz" by (intro mult_le_mono1) simp
    with assms(2) show False by simp
  next
    case 2
    then have "Suc b * sz \<le> a * sz" by (intro mult_le_mono1) simp
    with assms(1,3) show False by simp
  qed
qed

lemma fold_copy_nth:
  assumes "idx \<in> set idxs" "k < sz"
    and "\<And>i. i \<in> set idxs \<Longrightarrow> doff i = doff idx \<Longrightarrow> soff i = soff idx"
    and "doff idx * sz + k < length dst"
  shows "fold (\<lambda>i d. copy_element sz src (soff i) d (doff i)) idxs dst ! (doff idx * sz + k)
           = src ! (soff idx * sz + k)"
  using assms(1,3)
proof (induction idxs rule: rev_induct)
  case Nil
  then show ?case by simp
next
  case (snoc x xs)
  let ?p = "doff idx * sz + k"
  let ?f = "fold (\<lambda>i d. copy_element sz src (soff i) d (doff i)) xs dst"
  have p: "?p < length ?f" using assms(4) by simp
  have step: "fold (\<lambda>i d. copy_element sz src (soff i) d (doff i)) (xs @ [x]) dst
                = copy_element sz src (soff x) ?f (doff x)"
    by simp
  show ?case
  proof (cases "doff x * sz \<le> ?p \<and> ?p < doff x * sz + sz")
    case True
    then have dx: "doff x = doff idx" using assms(2) block_unique [of "doff x" sz "doff idx" k] by blast
    have "soff x = soff idx" by (rule snoc.prems(2)) (simp_all add: dx)
    with dx have "copy_element sz src (soff x) ?f (doff x) ! ?p = src ! (soff idx * sz + k)"
      using p assms(2) by (subst copy_element_nth) simp_all
    then show ?thesis by (simp only: step)
  next
    case False
    then have "idx \<noteq> x" using assms(2) by auto
    with snoc.prems(1) have mem: "idx \<in> set xs" by simp
    have "?f ! ?p = src ! (soff idx * sz + k)"
    proof (rule snoc.IH [OF mem])
      fix i assume "i \<in> set xs" "doff i = doff idx"
      then show "soff i = soff idx" using snoc.prems(2) by simp
    qed
    moreover have "copy_element sz src (soff x) ?f (doff x) ! ?p = ?f ! ?p"
      unfolding copy_element_nth [OF p] by (rule if_not_P [OF False])
    ultimately show ?thesis by (simp only: step)
  qed
qed

subsection \<open>Permuted lists\<close>

lemma length_gather [simp]: "length (gather f xs) = length xs"
  by (simp add: gather_def)

lemma gather_nth [simp]: "i < length xs \<Longrightarrow> gather f xs ! i = xs ! f i"
  by (simp add: gather_def)

lemma gather_gather:
  assumes "\<And>k. k < length xs \<Longrightarrow> g k < length xs \<and> f (g k) = k"
  shows "gather g (gather f xs) = xs"
proof (rule nth_equalityI)
  show "length (gather g (gather f xs)) = length xs" by simp
next
  fix k assume "k < length (gather g (gather f xs))"
  then have k: "k < length xs" by simp
  from assms [OF k] have "g k < length xs" "f (g k) = k" by blast+
  then show "gather g (gather f xs) ! k = xs ! k" using k by simp
qed

lemma offset_sum:
  assumes "length idx = n" "length strs = n"
  shows "offset idx strs = (\<Sum>i<n. int (idx ! i) * strs ! i)"
proof -
  have "offset idx strs = (\<Sum>i = 0..<n. map2 (\<lambda>i st. int i * st) idx strs ! i)"
    using assms by (simp add: offset_def sum_list_sum_nth)
  also have "\<dots> = (\<Sum>i = 0..<n. int (idx ! i) * strs ! i)"
    using assms by (intro sum.cong) simp_all
  finally show ?thesis by (simp add: atLeast0LessThan)
qed

lemma offset_gather:
  assumes "bij_betw f {..<n} {..<n}" "\<And>i. i < n \<Longrightarrow> g (f i) = i"
    and "length idx = n" "length strs = n"
  shows "offset idx (gather f strs) = offset (gather g idx) strs"
proof -
  have "offset (gather g idx) strs = (\<Sum>k<n. int (idx ! g k) * strs ! k)"
    using assms(3,4) by (simp add: offset_sum [of _ n])
  also have "\<dots> = (\<Sum>i<n. int (idx ! g (f i)) * strs ! f i)"
    by (rule sum.reindex_bij_betw [OF assms(1), symmetric])
  also have "\<dots> = (\<Sum>i<n. int (idx ! i) * gather f strs ! i)"
    using assms(2,4) by (intro sum.cong) simp_all
  also have "\<dots> = offset idx (gather f strs)"
    using assms(3,4) by (simp add: offset_sum [of _ n])
  finally show ?thesis by simp
qed

lemma prod_list_gather:
  fixes ds :: "int list"
  assumes "bij_betw f {..<length ds} {..<length ds}"
  shows "prod_list (gather f ds) = prod_list ds"
proof -
  have *: "prod_list xs = (\<Prod>i<length xs. xs ! i)" for xs :: "int list"
  proof -
    have "(\<Prod>i<length xs. xs ! i) = prod_list (map (\<lambda>i. xs ! i) [0..<length xs])"
      using prod.distinct_set_conv_list [of "[0..<length xs]" "\<lambda>i. xs ! i"]
      by (simp add: atLeast0LessThan)
    then show ?thesis by (simp add: map_nth)
  qed
  have "prod_list (gather f ds) = (\<Prod>i<length ds. ds ! f i)"
    by (simp add: * [of "gather f ds"])
  also have "\<dots> = (\<Prod>k<length ds. ds ! k)"
    by (rule prod.reindex_bij_betw [OF assms])
  finally show ?thesis by (simp add: *)
qed

lemma in_range_gather:
  assumes "in_range idx (gather f ds)" "\<And>k. k < length ds \<Longrightarrow> g k < length ds \<and> f (g k) = k"
  shows "in_range (gather g idx) ds"
proof -
  have len: "length idx = length ds" using in_range_length [OF assms(1)] by simp
  show ?thesis
    unfolding in_range_def
  proof (rule list_all2_all_nthI)
    show "length (gather g idx) = length ds" using len by simp
  next
    fix k assume "k < length (gather g idx)"
    then have k: "k < length ds" using len by simp
    with assms(2) have gk: "g k < length ds" "f (g k) = k" by simp_all
    from in_range_nth [OF assms(1), of "g k"] gk have "int (idx ! g k) < ds ! k" by simp
    then show "int (gather g idx ! k) < ds ! k" using k len by simp
  qed
qed

subsection \<open>Two repacking copies\<close>

lemma getStrides_loop_take:
  assumes "length st = n" "n \<le> length ds" "k < n"
    and "\<And>j. k \<le> j \<Longrightarrow> j < n \<Longrightarrow> st ! j = prod_list (drop (Suc j) (take n ds))"
    and "j < n"
  shows "getStrides_loop ds k st ! j = prod_list (drop (Suc j) (take n ds))"
  using assms
proof (induction k arbitrary: st)
  case 0
  then show ?case by simp
next
  case (Suc k)
  let ?st = "st[k := st ! Suc k * ds ! Suc k]"
  have "getStrides_loop ds k ?st ! j = prod_list (drop (Suc j) (take n ds))"
  proof (rule Suc.IH)
    show "length ?st = n" using Suc.prems by simp
    show "n \<le> length ds" by fact
    show "k < n" using Suc.prems by simp
    show "j < n" by fact
    fix i assume i: "k \<le> i" "i < n"
    show "?st ! i = prod_list (drop (Suc i) (take n ds))"
    proof (cases "i = k")
      case True
      have "drop (Suc k) (take n ds) = take n ds ! Suc k # drop (Suc (Suc k)) (take n ds)"
        using Suc.prems(2,3) by (intro Cons_nth_drop_Suc [symmetric]) simp
      moreover have "take n ds ! Suc k = ds ! Suc k" using Suc.prems(3) by simp
      moreover have "st ! Suc k = prod_list (drop (Suc (Suc k)) (take n ds))"
        using Suc.prems by simp
      ultimately show ?thesis using True i Suc.prems(1) by simp
    next
      case False
      then show ?thesis using i Suc.prems by simp
    qed
  qed
  then show ?case by simp
qed

lemma getStrides_eq_row_major:
  assumes "nat (shape_size od) \<le> length (shape_dims od)"
  shows "getStrides od = row_major (getDims od)"
proof (rule nth_equalityI)
  show "length (getStrides od) = length (row_major (getDims od))"
    using assms by (simp add: getStrides_def getDims_def)
next
  let ?n = "nat (shape_size od)"
  fix j assume "j < length (getStrides od)"
  then have j: "j < ?n" by (simp add: getStrides_def)
  have "getStrides_loop (shape_dims od) (?n - 1) (replicate ?n 1) ! j
          = prod_list (drop (Suc j) (take ?n (shape_dims od)))"
  proof (rule getStrides_loop_take)
    show "length (replicate ?n (1::int)) = ?n" by simp
    show "?n \<le> length (shape_dims od)" by fact
    show "?n - 1 < ?n" using j by simp
    show "j < ?n" by fact
    fix i assume "?n - 1 \<le> i" "i < ?n"
    then have "Suc i = ?n" by simp
    then show "replicate ?n (1::int) ! i = prod_list (drop (Suc i) (take ?n (shape_dims od)))"
      using assms by simp
  qed
  then show "getStrides od ! j = row_major (getDims od) ! j"
    using assms j by (simp add: getStrides_def getDims_def row_major_nth)
qed

lemma row_major_extent:
  "list_all (\<lambda>d. 0 < d) ds \<Longrightarrow>
   1 + sum_list (map2 (\<lambda>n st. (n - 1) * st) ds (row_major ds)) = prod_list ds"
  by (induction ds) (simp_all add: algebra_simps)

lemma get_size_row_major:
  assumes "ds \<noteq> []" "list_all (\<lambda>d. 0 \<le> d) ds"
  shows "get_size (desc_by_strides ds ty (row_major ds)) = nat (prod_list ds) * data_type_size ty"
proof (cases "0 \<in> set ds")
  case True
  then have "prod_list ds = 0" by (simp add: prod_list_zero_iff)
  with True show ?thesis by (simp add: get_size_def desc_by_strides_def)
next
  case False
  with assms(2) have "list_all (\<lambda>d. 0 < d) ds"
    by (induction ds) auto
  from row_major_extent [OF this] False assms(1) show ?thesis
    by (simp add: get_size_def desc_by_strides_def)
qed

lemma nat_offset_bound:
  assumes "in_range j ds" "k < sz"
  shows "nat (offset j (row_major ds)) * sz + k < nat (prod_list ds) * sz"
proof -
  from offset_bounds [OF assms(1)] have "Suc (nat (offset j (row_major ds))) \<le> nat (prod_list ds)"
    by linarith
  then have "Suc (nat (offset j (row_major ds))) * sz \<le> nat (prod_list ds) * sz"
    by (rule mult_le_mono1)
  with assms(2) show ?thesis by simp
qed

lemma transpose_bytes_nth:
  fixes ds :: "int list"
  assumes bij: "bij_betw f {..<length ds} {..<length ds}"
    and inv: "\<And>i. i < length ds \<Longrightarrow> g (f i) = i"
    and j: "in_range j (gather f ds)" and k: "k < sz"
    and len: "length Z = nat (prod_list ds) * sz"
  shows "reorder_bytes sz (gather f ds) (gather f (row_major ds)) (row_major (gather f ds)) B Z
           ! (nat (offset j (row_major (gather f ds))) * sz + k)
         = B ! (nat (offset (gather g j) (row_major ds)) * sz + k)"
proof -
  let ?od = "gather f ds"
  let ?doff = "\<lambda>idx. nat (offset idx (row_major ?od))"
  let ?soff = "\<lambda>idx. nat (offset idx (gather f (row_major ds)))"
  have "fold (\<lambda>i d. copy_element sz B (?soff i) d (?doff i)) (all_indices ?od) Z ! (?doff j * sz + k)
          = B ! (?soff j * sz + k)"
  proof (rule fold_copy_nth)
    show "j \<in> set (all_indices ?od)" using j by (simp add: all_indices_iff)
    show "k < sz" by fact
    show "?doff j * sz + k < length Z"
      using nat_offset_bound [OF j k] len by (simp add: prod_list_gather [OF bij])
    fix i assume "i \<in> set (all_indices ?od)" and d: "?doff i = ?doff j"
    then have i: "in_range i ?od" by (simp add: all_indices_iff)
    from offset_bounds [OF i] offset_bounds [OF j] d
    have "offset i (row_major ?od) = offset j (row_major ?od)" by linarith
    from offset_inj [OF i j this] show "?soff i = ?soff j" by simp
  qed
  moreover have "offset j (gather f (row_major ds)) = offset (gather g j) (row_major ds)"
    using in_range_length [OF j] by (intro offset_gather [OF bij inv]) simp_all
  ultimately show ?thesis by (simp add: reorder_bytes_def)
qed

lemma transpose_bytes_roundtrip:
  fixes ds :: "int list"
  assumes nonneg: "list_all (\<lambda>d. 0 \<le> d) ds"
    and bij: "bij_betw f {..<length ds} {..<length ds}"
    and gf: "\<And>i. i < length ds \<Longrightarrow> g (f i) = i"
    and len1: "length Z1 = nat (prod_list ds) * sz"
    and len2: "length Z2 = nat (prod_list ds) * sz"
    and lenB: "nat (prod_list ds) * sz \<le> length B"
  shows "reorder_bytes sz ds (gather g (row_major (gather f ds))) (row_major ds)
           (reorder_bytes sz (gather f ds) (gather f (row_major ds)) (row_major (gather f ds)) B Z1) Z2
         = take (nat (prod_list ds) * sz) B"
    (is "?B2 = _")
proof (rule nth_equalityI)
  show "length ?B2 = length (take (nat (prod_list ds) * sz) B)"
    using len2 lenB by simp
next
  let ?n = "length ds" and ?N = "nat (prod_list ds)"
  let ?od = "gather f ds"
  let ?B1 = "reorder_bytes sz ?od (gather f (row_major ds)) (row_major ?od) B Z1"
  have fg: "f (g k) = k" and g_lt: "g k < ?n" if "k < ?n" for k
  proof -
    from bij that obtain i where i: "i < ?n" "f i = k"
      unfolding bij_betw_def by (metis imageE lessThan_iff)
    with gf [OF i(1)] show "f (g k) = k" "g k < ?n" by simp_all
  qed
  have f_lt: "f i < ?n" if "i < ?n" for i
    using bij that unfolding bij_betw_def by auto
  have bij_g: "bij_betw g {..<length ?od} {..<length ?od}"
  proof -
    have "bij_betw g {..<?n} {..<?n}"
      by (rule bij_betw_byWitness [where f' = f]) (auto simp: fg g_lt f_lt gf)
    then show ?thesis by simp
  qed
  have gg: "gather g ?od = ds"
    by (rule gather_gather) (simp add: fg g_lt)
  fix pos assume "pos < length ?B2"
  then have pos: "pos < ?N * sz" using len2 by simp
  then have sz: "0 < sz" by (cases sz) simp_all
  define o' where "o' = pos div sz"
  define k where "k = pos mod sz"
  have k: "k < sz" and o': "o' < ?N" and pk: "pos = o' * sz + k"
    using pos sz by (simp_all add: o'_def k_def less_mult_imp_div_less)
  from o' have "0 \<le> int o'" "int o' < prod_list ds" by linarith+
  from offset_surj [OF nonneg this] obtain j where j: "in_range j ds" "offset j (row_major ds) = int o'"
    by blast
  have j_od: "in_range j (gather g ?od)" using j gg by simp
  have fj: "in_range (gather f j) ?od"
    by (rule in_range_gather [OF j_od]) (simp add: f_lt gf)
  have "?B2 ! pos = ?B2 ! (nat (offset j (row_major ds)) * sz + k)"
    using j pk by simp
  also have "\<dots> = ?B1 ! (nat (offset (gather f j) (row_major ?od)) * sz + k)"
    using transpose_bytes_nth [OF bij_g _ j_od k, of f Z2 ?B1] fg len2
    by (simp add: gg prod_list_gather [OF bij])
  also have "\<dots> = B ! (nat (offset (gather g (gather f j)) (row_major ds)) * sz + k)"
    by (rule transpose_bytes_nth [OF bij gf fj k len1])
  also have "gather g (gather f j) = j"
    using in_range_length [OF j(1)] by (intro gather_gather) (simp add: fg g_lt)
  finally have "?B2 ! pos = B ! pos" using j pk by simp
  then show "?B2 ! pos = take (?N * sz) B ! pos" using pos by simp
qed

subsection \<open>The lowering calls and the replay of the plan\<close>

lemma length_fold_update: "length (fold (\<lambda>i st. st[i := f i]) ks st) = length st"
  by (induction ks arbitrary: st) simp_all

lemma permute_strides_gather:
  assumes "length strides = nat (shape_size P)"
  shows "permute_strides P strides = gather (\<lambda>i. nat (shape_dims P ! i)) strides"
proof (rule nth_equalityI)
  show "length (permute_strides P strides) = length (gather (\<lambda>i. nat (shape_dims P ! i)) strides)"
    by (simp add: permute_strides_def length_fold_update)
next
  fix i assume "i < length (permute_strides P strides)"
  then have i: "i < length strides" by (simp add: permute_strides_def length_fold_update)
  then show "permute_strides P strides ! i = gather (\<lambda>i. nat (shape_dims P ! i)) strides ! i"
    using assms by (simp add: permute_strides_def fold_update_nth)
qed

lemma odla_Transpose_effect:
  assumes "odla_Transpose input P od vid s = Returned v s'"
  defines "ty \<equiv> md_data_type (get_desc (value_mem s input))"
  defines "dst \<equiv> desc_by_strides (getDims od) ty (getStrides od)"
  defines "src \<equiv> desc_by_strides (getDims od) ty
                   (permute_strides P (getStrides (shape (value_store s input))))"
  shows "v = next_value s"
    and "heap s' = (heap s)(next_ptr s := replicate (get_size dst) 0)"
    and "mems s' = (mems s)(next_mem s := \<lparr>get_desc = dst, get_data_handle = next_ptr s\<rparr>)"
    and "mem (value_store s' v) = next_mem s"
    and "shape (value_store s' v) = od"
    and "primitives (the_comp s') = primitives (the_comp s) @ [reorder src dst]"
    and "args (the_comp s') = args (the_comp s) @
           [[DNNL_ARG_FROM \<mapsto> mem (value_store s input), DNNL_ARG_TO \<mapsto> next_mem s]]"
    and "next_ptr s' = Suc (next_ptr s)" and "next_mem s' = Suc (next_mem s)"
    and "g_comp s' = g_comp s"
  using assms(1) unfolding ty_def dst_def src_def
  by (auto simp: odla_Transpose_def Let_def CreateValue_def new_memory_def push_primitive_def
        push_args_def update_comp_def the_comp_def)

lemma run_plan_cong:
  assumes "primitives c' = primitives c @ ps" "args c' = args c @ as"
    and "length (primitives c) = length (args c)"
  shows "foldl (\<lambda>h i. execute_primitive lib (primitives c' ! i) (args c' ! i) ms h) h
           [0..<length (primitives c)] = run_plan lib c ms h"
proof -
  have *: "foldl (\<lambda>h i. execute_primitive lib (primitives c' ! i) (args c' ! i) ms h) h ks
          = foldl (\<lambda>h i. execute_primitive lib (primitives c ! i) (args c ! i) ms h) h ks"
    if "\<And>k. k \<in> set ks \<Longrightarrow> k < length (primitives c)" for ks h
    using that
  proof (induction ks arbitrary: h)
    case Nil
    then show ?case by simp
  next
    case (Cons k ks)
    then have "k < length (primitives c)" by simp
    with assms have "primitives c' ! k = primitives c ! k" "args c' ! k = args c ! k"
      by (simp_all add: nth_append)
    with Cons show ?case by simp
  qed
  show ?thesis unfolding run_plan_def by (rule *) simp
qed

lemma run_plan_two_more:
  assumes "primitives c' = primitives c @ [p1, p2]" "args c' = args c @ [a1, a2]"
    and "length (primitives c) = length (args c)"
  shows "run_plan lib c' ms h
           = execute_primitive lib p2 a2 ms (execute_primitive lib p1 a1 ms (run_plan lib c ms h))"
proof -
  let ?n = "length (primitives c)"
  have "[0..<length (primitives c')] = [0..<?n] @ [?n, Suc ?n]"
    using assms(1) by (simp add: upt_rec [of ?n])
  moreover have "primitives c' ! ?n = p1" "primitives c' ! Suc ?n = p2"
    using assms(1) by (simp_all add: nth_append)
  moreover have "args c' ! ?n = a1" "args c' ! Suc ?n = a2"
    using assms(2,3) by (simp_all add: nth_append)
  ultimately show ?thesis
    using run_plan_cong [OF assms] by (simp add: run_plan_def)
qed

lemma length_execute_primitive:
  assumes "\<And>p a h b. length (execute_kernel lib p a h b) = length (h b)"
  shows "length (execute_primitive lib p a ms h b) = length (h b)"
  using assms
  by (auto simp: execute_primitive_def Let_def split: primitive.splits option.splits)

lemma length_run_plan:
  assumes "\<And>p a h b. length (execute_kernel lib p a h b) = length (h b)"
  shows "length (run_plan lib c ms h b) = length (h b)"
proof -
  have "length (foldl (\<lambda>h i. execute_primitive lib (primitives c ! i) (args c ! i) ms h) h ks b)
          = length (h b)" for ks
    by (induction ks arbitrary: h) (simp_all add: length_execute_primitive [OF assms])
  then show ?thesis by (simp add: run_plan_def)
qed

lemma execute_reorder_plain:
  assumes "a DNNL_ARG_FROM = Some mf" "a DNNL_ARG_TO = Some mt"
  shows "execute_primitive lib
           (reorder (desc_by_strides ds ty sstr) (desc_by_strides ds ty dstr)) a ms h
         = (if ds = [] then execute_kernel lib
                (reorder (desc_by_strides ds ty sstr) (desc_by_strides ds ty dstr)) (map_option ms \<circ> a) h
            else h(get_data_handle (ms mt) :=
                 reorder_bytes (data_type_size ty) ds sstr dstr
                   (h (get_data_handle (ms mf))) (h (get_data_handle (ms mt)))))"
  using assms
  by (simp add: execute_primitive_def Let_def plain_reorder_def desc_by_strides_def)

lemma permutation_bij:
  assumes "length xs = n" "set xs = int ` {..<n}"
  shows "bij_betw (\<lambda>i. nat (xs ! i)) {..<n} {..<n}"
proof -
  let ?p = "\<lambda>i. nat (xs ! i)"
  have "?p ` {..<n} = nat ` set xs"
    using assms(1) by (auto simp: set_conv_nth image_iff)
  also have "\<dots> = {..<n}" using assms(2) by (simp add: image_image)
  finally have img: "?p ` {..<n} = {..<n}" .
  then have "inj_on ?p {..<n}" by (intro eq_card_imp_inj_on) simp_all
  with img show ?thesis by (simp add: bij_betw_def)
qed

lemma odla_Transpose_returns:
  "\<exists>v s'. odla_Transpose input P od vid s = Returned v s'"
  by (simp add: odla_Transpose_def Let_def split_def)

lemma odla_ExecuteComputation_returns:
  "\<exists>s'. odla_ExecuteComputation lib c ctx s = Returned (Some ODLA_SUCCESS) s'"
  by (simp add: odla_ExecuteComputation_def Let_def)

text \<open>
  C6: let a value of rank \<open>n > 0\<close> with non-negative dims have a live memory object and
  a buffer holding at least its \<open>nbytes\<close> bytes (element count times element size); let
  \<open>P\<close> be a permutation of \<open>0..n-1\<close>, \<open>Q\<close> its inverse, and \<open>out_dims\<close> the dims
  permuted by \<open>P\<close>. Lowering \<open>odla_Transpose\<close> by \<open>P\<close> to \<open>out_dims\<close>, then
  \<open>odla_Transpose\<close> of the result by \<open>Q\<close> back to the original dims, and executing the
  computation leaves the second result's buffer equal, byte for byte, to the first
  \<open>nbytes\<close> bytes of the input's buffer as the plan entries lowered earlier leave it; with
  no earlier plan entries that is the input's buffer as it was before the calls. (The
  library's reorder is the repacking copy \<open>reorder_bytes\<close>, and its other kernels are
  only assumed not to resize buffers.)
\<close>

theorem transpose_inverse_restores_buffer:
  fixes n :: nat
  assumes rank: "0 < n"
    and in_shape: "shape (value_store s input) = in_dims" "shape_size in_dims = int n"
      "n \<le> length (shape_dims in_dims)" "list_all (\<lambda>d. 0 \<le> d) (getDims in_dims)"
    and perm: "shape_size P = int n" "n \<le> length (shape_dims P)" "set (getDims P) = int ` {..<n}"
    and inverse: "shape_size Q = int n" "n \<le> length (shape_dims Q)"
      "\<forall>i<n. shape_dims Q ! nat (shape_dims P ! i) = int i"
    and out_shape: "shape_size out_dims = int n" "n \<le> length (shape_dims out_dims)"
      "\<forall>i<n. shape_dims out_dims ! i = shape_dims in_dims ! nat (shape_dims P ! i)"
    and live: "mem (value_store s input) < next_mem s"
      "get_data_handle (value_mem s input) < next_ptr s"
    and plan: "length (primitives (the_comp s)) = length (args (the_comp s))"
    and kernels: "\<And>p a h b. length (execute_kernel lib p a h b) = length (h b)"
    and t1: "odla_Transpose input P out_dims vid1 s = Returned v1 s1"
    and t2: "odla_Transpose v1 Q in_dims vid2 s1 = Returned v2 s2"
    and ex: "odla_ExecuteComputation lib (g_comp s2) ctx s2 = Returned st s3"
    and nbytes: "nbytes = nat (prod_list (getDims in_dims))
                   * data_type_size (md_data_type (get_desc (value_mem s input)))"
    and buf: "nbytes \<le> length (value_data s input)"
  shows "value_data s3 v2
           = take nbytes (run_plan lib (the_comp s) (mems s2) (heap s2)
                            (get_data_handle (value_mem s input)))
         \<and> (primitives (the_comp s) = [] \<longrightarrow> value_data s3 v2 = take nbytes (value_data s input))"
proof -
  define ds where "ds = getDims in_dims"
  define ty where "ty = md_data_type (get_desc (value_mem s input))"
  define sz where "sz = data_type_size ty"
  define p where "p = (\<lambda>i. nat (shape_dims P ! i))"
  define q where "q = (\<lambda>i. nat (shape_dims Q ! i))"
  define mi where "mi = mem (value_store s input)"
  define hi where "hi = get_data_handle (value_mem s input)"
  define m1 where "m1 = next_mem s"
  define b1 where "b1 = next_ptr s"
  have len_ds: "length ds = n" using in_shape by (simp add: ds_def getDims_def)
  have nonneg: "list_all (\<lambda>d. 0 \<le> d) ds" using in_shape by (simp add: ds_def)
  have ds_nth: "ds ! i = shape_dims in_dims ! i" if "i < n" for i
    using that in_shape by (simp add: ds_def getDims_def)
  \<comment> \<open>the permutation and its inverse\<close>
  have lenP: "length (getDims P) = n" using perm by (simp add: getDims_def)
  have P_nth: "getDims P ! i = shape_dims P ! i" if "i < n" for i
    using that perm by (simp add: getDims_def)
  have "bij_betw (\<lambda>i. nat (getDims P ! i)) {..<n} {..<n}"
    using lenP perm(3) by (rule permutation_bij)
  then have bij: "bij_betw p {..<length ds} {..<length ds}"
    unfolding p_def len_ds by (rule bij_betw_cong [THEN iffD1, rotated]) (simp add: P_nth)
  have p_lt: "p i < n" if "i < n" for i
    using bij that unfolding bij_betw_def len_ds by auto
  have qp: "q (p i) = i" if "i < length ds" for i
    using that inverse(3) by (simp add: p_def q_def len_ds)
  \<comment> \<open>the shapes and strides of the two calls\<close>
  have out: "getDims out_dims = gather p ds"
  proof (rule nth_equalityI)
    show "length (getDims out_dims) = length (gather p ds)"
      using out_shape len_ds by (simp add: getDims_def)
  next
    fix i assume "i < length (getDims out_dims)"
    then have i: "i < n" using out_shape by (simp add: getDims_def)
    then show "getDims out_dims ! i = gather p ds ! i"
      using out_shape ds_nth [OF p_lt [OF i]] len_ds by (simp add: getDims_def p_def)
  qed
  have str_in: "getStrides in_dims = row_major ds"
    using in_shape by (simp add: getStrides_eq_row_major ds_def)
  have str_out: "getStrides out_dims = row_major (gather p ds)"
    using out_shape by (simp add: getStrides_eq_row_major out [symmetric])
  have ns1: "permute_strides P (row_major ds) = gather p (row_major ds)"
    using perm len_ds by (simp add: permute_strides_gather p_def)
  have ns2: "permute_strides Q (row_major (gather p ds)) = gather q (row_major (gather p ds))"
    using inverse len_ds by (simp add: permute_strides_gather q_def)
  have ne: "ds \<noteq> []" "gather p ds \<noteq> []" using rank len_ds by (auto simp: gather_def)
  \<comment> \<open>the two lowering calls\<close>
  note E1 = odla_Transpose_effect [OF t1]
  note E2 = odla_Transpose_effect [OF t2]
  let ?src1 = "desc_by_strides (gather p ds) ty (gather p (row_major ds))"
  let ?dst1 = "desc_by_strides (gather p ds) ty (row_major (gather p ds))"
  let ?src2 = "desc_by_strides ds ty (gather q (row_major (gather p ds)))"
  let ?dst2 = "desc_by_strides ds ty (row_major ds)"
  have v1: "mem (value_store s1 v1) = m1" "shape (value_store s1 v1) = out_dims"
    using E1(4,5) by (simp_all add: m1_def)
  have mems1: "mems s1 = (mems s)(m1 := \<lparr>get_desc = ?dst1, get_data_handle = b1\<rparr>)"
    using E1(3) by (simp add: out str_out ty_def m1_def b1_def)
  have ty1: "md_data_type (get_desc (value_mem s1 v1)) = ty"
    by (simp add: value_mem_def v1 mems1 desc_by_strides_def)
  have mems2: "mems s2 = (mems s)(m1 := \<lparr>get_desc = ?dst1, get_data_handle = b1\<rparr>,
                  Suc m1 := \<lparr>get_desc = ?dst2, get_data_handle = Suc b1\<rparr>)"
    using E2(3) E1(8,9) by (simp add: mems1 ty1 str_in ds_def [symmetric] m1_def b1_def)
  have heap2: "heap s2 = (heap s)(b1 := replicate (get_size ?dst1) 0,
                  Suc b1 := replicate (get_size ?dst2) 0)"
    using E2(2) E1(2,8) by (simp add: ty1 str_in str_out out ds_def [symmetric] ty_def b1_def)
  have prims2: "primitives (the_comp s2) = primitives (the_comp s) @ [reorder ?src1 ?dst1, reorder ?src2 ?dst2]"
    using E2(6) E1(6) in_shape(1)
    by (simp add: ty1 v1 ns1 ns2 str_in str_out out ds_def [symmetric] ty_def)
  have args2: "args (the_comp s2) = args (the_comp s) @
                 [[DNNL_ARG_FROM \<mapsto> mi, DNNL_ARG_TO \<mapsto> m1], [DNNL_ARG_FROM \<mapsto> m1, DNNL_ARG_TO \<mapsto> Suc m1]]"
    using E2(7) E1(7,9) by (simp add: v1 mi_def m1_def)
  have v2: "mem (value_store s2 v2) = Suc m1"
    using E2(4) E1(9) by (simp add: m1_def)
  \<comment> \<open>the memory objects and buffers at execution\<close>
  have mi: "mi \<noteq> m1" "mi \<noteq> Suc m1" using live(1) by (simp_all add: mi_def m1_def)
  have hi: "hi \<noteq> b1" "hi \<noteq> Suc b1" using live(2) by (simp_all add: hi_def b1_def)
  have h_mi: "get_data_handle (mems s2 mi) = hi"
    using mi by (simp add: mems2 hi_def mi_def value_mem_def)
  have h_m1: "get_data_handle (mems s2 m1) = b1" by (simp add: mems2)
  have h_m2: "get_data_handle (mems s2 (Suc m1)) = Suc b1" by (simp add: mems2)
  define H where "H = run_plan lib (the_comp s) (mems s2) (heap s2)"
  have lenH: "length (H b) = length (heap s2 b)" for b
    unfolding H_def by (rule length_run_plan [OF kernels])
  have nonneg_out: "list_all (\<lambda>d. 0 \<le> d) (gather p ds)"
    unfolding list_all_length
  proof (intro allI impI)
    fix i assume "i < length (gather p ds)"
    then have i: "i < n" by (simp add: len_ds)
    from nonneg p_lt [OF i] have "0 \<le> ds ! p i" by (simp add: list_all_length len_ds)
    then show "0 \<le> gather p ds ! i" using i by (simp add: len_ds)
  qed
  have sz1: "get_size ?dst1 = nat (prod_list ds) * sz"
    using get_size_row_major [OF ne(2) nonneg_out, of ty]
    by (simp only: sz_def prod_list_gather [OF bij])
  have sz2: "get_size ?dst2 = nat (prod_list ds) * sz"
    using get_size_row_major [OF ne(1) nonneg, of ty] by (simp add: sz_def)
  have len1: "length (H b1) = nat (prod_list ds) * sz"
    by (simp add: lenH heap2 sz1)
  have len2: "length (H (Suc b1)) = nat (prod_list ds) * sz"
    by (simp add: lenH heap2 sz2)
  have heap_hi: "heap s2 hi = value_data s input"
    using hi by (simp add: heap2 value_data_def hi_def)
  have lenB: "nat (prod_list ds) * sz \<le> length (H hi)"
    using buf nbytes by (simp add: lenH heap_hi ds_def sz_def ty_def)
  \<comment> \<open>replaying the plan\<close>
  have s3: "heap s3 = run_plan lib (the_comp s2) (mems s2) (heap s2)"
    "mems s3 = mems s2" "value_store s3 = value_store s2"
    using ex by (auto simp: odla_ExecuteComputation_def Let_def make_stream_def the_comp_def
        split: if_splits)
  let ?a1 = "[DNNL_ARG_FROM \<mapsto> mi, DNNL_ARG_TO \<mapsto> m1]"
  let ?a2 = "[DNNL_ARG_FROM \<mapsto> m1, DNNL_ARG_TO \<mapsto> Suc m1]"
  let ?B1 = "reorder_bytes sz (gather p ds) (gather p (row_major ds)) (row_major (gather p ds))
               (H hi) (H b1)"
  have a: "?a1 DNNL_ARG_FROM = Some mi" "?a1 DNNL_ARG_TO = Some m1"
    "?a2 DNNL_ARG_FROM = Some m1" "?a2 DNNL_ARG_TO = Some (Suc m1)"
    by (simp_all add: arg_defs)
  have step1: "execute_primitive lib (reorder ?src1 ?dst1) ?a1 (mems s2) H = H(b1 := ?B1)"
    using ne(2) by (simp add: execute_reorder_plain [OF a(1,2)] h_mi h_m1 sz_def)
  have step2: "execute_primitive lib (reorder ?src2 ?dst2) ?a2 (mems s2) (H(b1 := ?B1))
                 = (H(b1 := ?B1))(Suc b1 :=
                      reorder_bytes sz ds (gather q (row_major (gather p ds))) (row_major ds)
                        ?B1 (H (Suc b1)))"
    using ne(1) by (simp add: execute_reorder_plain [OF a(3,4)] h_m1 h_m2 sz_def)
  have "heap s3 = (H(b1 := ?B1))(Suc b1 :=
                      reorder_bytes sz ds (gather q (row_major (gather p ds))) (row_major ds)
                        ?B1 (H (Suc b1)))"
    unfolding s3(1) run_plan_two_more [OF prims2 args2 plan] H_def [symmetric] step1 step2 ..
  then have "value_data s3 v2
               = reorder_bytes sz ds (gather q (row_major (gather p ds))) (row_major ds)
                   ?B1 (H (Suc b1))"
    by (simp add: value_data_def value_mem_def s3 v2 h_m2)
  also have "\<dots> = take (nat (prod_list ds) * sz) (H hi)"
    by (rule transpose_bytes_roundtrip [OF nonneg bij qp len1 len2 lenB])
  finally have main: "value_data s3 v2 = take nbytes (H hi)"
    using nbytes by (simp add: ds_def sz_def ty_def)
  have "H = heap s2" if "primitives (the_comp s) = []"
    using that by (simp add: H_def run_plan_def)
  with main heap_hi show ?thesis
    by (simp add: H_def hi_def)
qed

theorem transpose_inverse_witness:
  "\<exists>v1 s1 v2 s2 s3.
     odla_Transpose 2 \<lparr>shape_size = 2, shape_dims = [1, 0]\<rparr> \<lparr>shape_size = 2, shape_dims = [3, 2]\<rparr>
       None example_state = Returned v1 s1
     \<and> odla_Transpose v1 \<lparr>shape_size = 2, shape_dims = [1, 0]\<rparr> \<lparr>shape_size = 2, shape_dims = [2, 3]\<rparr>
       None s1 = Returned v2 s2
     \<and> odla_ExecuteComputation plain_lib (g_comp s2) 0 s2 = Returned (Some ODLA_SUCCESS) s3
     \<and> length (value_data example_state 2) = 24
     \<and> value_data s3 v2 = take 24 (value_data example_state 2)"
proof -
  let ?P = "\<lparr>shape_size = 2, shape_dims = [1, 0]\<rparr>"
  let ?out = "\<lparr>shape_size = 2, shape_dims = [3, 2]\<rparr>"
  let ?in = "\<lparr>shape_size = 2, shape_dims = [2, 3]\<rparr>"
  obtain v1 s1 where t1: "odla_Transpose 2 ?P ?out None example_state = Returned v1 s1"
    using odla_Transpose_returns by blast
  obtain v2 s2 where t2: "odla_Transpose v1 ?P ?in None s1 = Returned v2 s2"
    using odla_Transpose_returns by blast
  obtain s3 where ex: "odla_ExecuteComputation plain_lib (g_comp s2) 0 s2 = Returned (Some ODLA_SUCCESS) s3"
    using odla_ExecuteComputation_returns by blast
  have set2: "set (getDims ?P) = int ` {..<2}"
    by (auto simp: getDims_def lessThan_Suc numeral_2_eq_2)
  have all2: "(\<forall>i<2. Q i) \<longleftrightarrow> Q 0 \<and> Q 1" for Q :: "nat \<Rightarrow> bool"
    by (auto simp: less_2_cases_iff)
  have "value_data s3 v2
           = take 24 (run_plan plain_lib (the_comp example_state) (mems s2) (heap s2)
                            (get_data_handle (value_mem example_state 2)))
         \<and> (primitives (the_comp example_state) = [] \<longrightarrow>
              value_data s3 v2 = take 24 (value_data example_state 2))"
  proof (rule transpose_inverse_restores_buffer [where n = 2 and P = ?P and Q = ?P
        and out_dims = ?out and in_dims = ?in and lib = plain_lib, OF _ _ _ _ _ _ _ set2 _ _ _ _ _ _ _ _ _ _ t1 t2 ex])
    show "(0::nat) < 2" by simp
    show "shape (value_store example_state 2) = ?in" by (simp add: example_value_2)
    show "shape_size ?in = int 2" "shape_size ?P = int 2" "shape_size ?out = int 2" by simp_all
    show "2 \<le> length (shape_dims ?in)" "2 \<le> length (shape_dims ?P)" "2 \<le> length (shape_dims ?out)"
      by simp_all
    show "list_all (\<lambda>d. 0 \<le> d) (getDims ?in)" by (simp add: getDims_def)
    show "\<forall>i<2. shape_dims ?P ! nat (shape_dims ?P ! i) = int i" by (simp add: all2)
    show "\<forall>i<2. shape_dims ?out ! i = shape_dims ?in ! nat (shape_dims ?P ! i)" by (simp add: all2)
    show "mem (value_store example_state 2) < next_mem example_state"
      "get_data_handle (value_mem example_state 2) < next_ptr example_state"
      by (simp_all add: example_value_2)
    show "length (primitives (the_comp example_state)) = length (args (the_comp example_state))"
      by (simp add: example_plan)
    show "length (execute_kernel plain_lib p a h b) = length (h b)" for p a h b
      by (simp add: plain_lib_def)
    show "24 = nat (prod_list (getDims ?in))
                   * data_type_size (md_data_type (get_desc (value_mem example_state 2)))"
      by (simp add: example_value_2 getDims_def data_type_size_def)
    show "24 \<le> length (value_data example_state 2)" by (simp add: example_value_2)
  qed simp_all
  then have "primitives (the_comp example_state) = [] \<longrightarrow>
              value_data s3 v2 = take 24 (value_data example_state 2)"
    by (rule conjunct2)
  then have "value_data s3 v2 = take 24 (value_data example_state 2)"
    using example_plan(1) by (rule mp)
  with t1 t2 ex example_value_2(5) show ?thesis by blast
qed

end
